theory Spec2Isabelle
  imports Main "HOL-Library.Code_Target_Nat"
begin

section \<open>JavaScript strings and numbers\<close>

text \<open>
  Strings are lists of characters with code points below 256. Numbers that the adapter
  counts with (handles, hit counters, line numbers) are naturals; \<open>x++\<close> on a
  JavaScript number stops growing at \<open>2^53\<close>, which \<open>js_incr\<close> writes out.
\<close>

definition code :: "char \<Rightarrow> nat" where
  "code c = of_char c"

definition MAX_EXACT :: nat where
  "MAX_EXACT = 9007199254740992"

definition js_incr :: "nat \<Rightarrow> nat" where
  "js_incr n = (if n < MAX_EXACT then n + 1 else n)"

definition toLowerCase_char :: "char \<Rightarrow> char" where
  "toLowerCase_char c =
     (if (65 \<le> code c \<and> code c \<le> 90) \<or> (192 \<le> code c \<and> code c \<le> 222 \<and> code c \<noteq> 215)
      then char_of (code c + 32) else c)"

definition toLowerCase :: "string \<Rightarrow> string" where
  "toLowerCase s = map toLowerCase_char s"

definition startsWith :: "string \<Rightarrow> string \<Rightarrow> bool" where
  "startsWith s p = (take (length p) s = p)"

definition digit_char :: "nat \<Rightarrow> char" where
  "digit_char d = char_of (48 + d)"

text \<open>\<open>String(n)\<close> and \<open>`${n}`\<close> for a natural below \<open>10^21\<close>: its decimal digits.\<close>

fun string_of_nat :: "nat \<Rightarrow> string" where
  "string_of_nat n =
     (if n < 10 then [digit_char n] else string_of_nat (n div 10) @ [digit_char (n mod 10)])"

declare string_of_nat.simps [simp del]

definition is_digit :: "char \<Rightarrow> bool" where
  "is_digit c = (48 \<le> code c \<and> code c \<le> 57)"

definition is_octal_digit :: "char \<Rightarrow> bool" where
  "is_octal_digit c = (48 \<le> code c \<and> code c \<le> 55)"

text \<open>The regular expression class \<open>\s\<close> on code points below 256.\<close>

definition is_space :: "char \<Rightarrow> bool" where
  "is_space c = (code c \<in> {9, 10, 11, 12, 13, 32, 160})"

definition digit_value :: "char \<Rightarrow> nat" where
  "digit_value c = code c - 48"

definition value_in_base :: "nat \<Rightarrow> string \<Rightarrow> nat" where
  "value_in_base b ds = foldl (\<lambda>a c. a * b + digit_value c) 0 ds"

section \<open>Hit conditions (checkAdvancedBreakpoint, the hitCondition block)\<close>

datatype error = SyntaxError | TypeError | UnknownFrameId nat | EvalError string

text \<open>
  The regular expression \<open>^(?<operator><=|<|>=|>|==|=|%)?\s*(?<number>\d+)$\<close>.
  \<open>match_rest\<close> is \<open>\s*(\d+)$\<close>; \<open>match_hitCondition\<close> tries the operator's
  alternatives in the order written and then the empty operator, as the backtracking
  matcher does, and returns the groups \<open>(operator, number)\<close> of the first success.
\<close>

definition match_rest :: "string \<Rightarrow> string option" where
  "match_rest s =
     (let ds = dropWhile is_space s
      in if ds \<noteq> [] \<and> list_all is_digit ds then Some ds else None)"

fun match_alternatives :: "string list \<Rightarrow> string \<Rightarrow> (string option \<times> string) option" where
  "match_alternatives [] s =
     (case match_rest s of None \<Rightarrow> None | Some ds \<Rightarrow> Some (None, ds))"
| "match_alternatives (op # ops) s =
     (if startsWith s op
      then (case match_rest (drop (length op) s) of
              Some ds \<Rightarrow> Some (Some op, ds)
            | None \<Rightarrow> match_alternatives ops s)
      else match_alternatives ops s)"

definition match_hitCondition :: "string \<Rightarrow> (string option \<times> string) option" where
  "match_hitCondition s =
     match_alternatives [''<='', ''<'', ''>='', ''>'', ''=='', ''='', ''%''] s"

definition hitCondition_code :: "nat \<Rightarrow> string option \<Rightarrow> string \<Rightarrow> string" where
  "hitCondition_code counter operator number =
     (let operator' = (case operator of None \<Rightarrow> ''>=''
                       | Some op \<Rightarrow> if op = ''='' then ''=='' else op)
      in if operator' = ''%''
         then ''('' @ string_of_nat counter @ '' % '' @ number @ '' === 0)''
         else string_of_nat counter @ '' '' @ operator' @ '' '' @ number)"

text \<open>
  \<open>safeEval\<close> is the third-party sandbox; the adapter takes it as given, so it is a
  parameter: it returns the value of the code or throws.
\<close>

type_synonym safeEval = "string \<Rightarrow> error + bool"

definition hitConditionResult :: "safeEval \<Rightarrow> string \<Rightarrow> nat \<Rightarrow> bool" where
  "hitConditionResult safeEval hitCondition counter =
     (case match_hitCondition hitCondition of
        None \<Rightarrow> False
      | Some (operator, number) \<Rightarrow>
          (case safeEval (hitCondition_code counter operator number) of
             Inl e \<Rightarrow> False
           | Inr v \<Rightarrow> v))"

text \<open>
  What JavaScript computes for the two shapes of code that \<open>hitCondition_code\<close>
  builds. The code runs in sloppy mode, where a numeral with a leading zero and only
  octal digits is octal. \<open>js_numeral\<close> is the value the numeral denotes and
  \<open>to_double\<close> the number that JavaScript reads it as: the value itself below
  \<open>2^53\<close>, above it the nearest number with 53 significant bits (ties to the even
  one), and Infinity, written \<open>None\<close>, when that number would be \<open>2^1024\<close> or more,
  that is, have more than 1024 bits. \<open>n % 0\<close> and \<open>Infinity % n\<close> are NaN, and
  \<open>NaN === 0\<close> is false; \<open>n % Infinity\<close> is \<open>n\<close>.
\<close>

definition js_numeral :: "string \<Rightarrow> nat" where
  "js_numeral ds =
     (if 1 < length ds \<and> hd ds = CHR ''0'' \<and> list_all is_octal_digit ds
      then value_in_base 8 ds else value_in_base 10 ds)"

fun bit_length :: "nat \<Rightarrow> nat" where
  "bit_length n = (if n = 0 then 0 else Suc (bit_length (n div 2)))"

declare bit_length.simps [simp del]

definition to_double :: "nat \<Rightarrow> nat option" where
  "to_double n =
     (if n < MAX_EXACT then Some n
      else (let e = bit_length n - 53;
                q = n div 2 ^ e;
                r = n mod 2 ^ e;
                half = 2 ^ (e - 1);
                q' = (if half < r \<or> (r = half \<and> odd q) then q + 1 else q);
                v = q' * 2 ^ e
            in if 1024 < bit_length v then None else Some v))"

definition js_le :: "nat option \<Rightarrow> nat option \<Rightarrow> bool" where
  "js_le a b =
     (case b of None \<Rightarrow> True
      | Some y \<Rightarrow> (case a of None \<Rightarrow> False | Some x \<Rightarrow> x \<le> y))"

definition js_remainder_is_zero :: "nat option \<Rightarrow> nat option \<Rightarrow> bool" where
  "js_remainder_is_zero a b =
     (case a of None \<Rightarrow> False
      | Some x \<Rightarrow> (case b of None \<Rightarrow> x = 0 | Some y \<Rightarrow> y \<noteq> 0 \<and> x mod y = 0))"

fun split_spaces :: "string \<Rightarrow> string list" where
  "split_spaces [] = [[]]"
| "split_spaces (c # cs) =
     (if c = CHR '' '' then [] # split_spaces cs
      else (case split_spaces cs of w # ws \<Rightarrow> (c # w) # ws | [] \<Rightarrow> [[c]]))"

definition is_numeral :: "string \<Rightarrow> bool" where
  "is_numeral ds = (ds \<noteq> [] \<and> list_all is_digit ds)"

definition js_compare :: "string \<Rightarrow> nat option \<Rightarrow> nat option \<Rightarrow> error + bool" where
  "js_compare op a b =
     (if op = ''<='' then Inr (js_le a b)
      else if op = ''<'' then Inr (\<not> js_le b a)
      else if op = ''>='' then Inr (js_le b a)
      else if op = ''>'' then Inr (\<not> js_le a b)
      else if op = ''=='' then Inr (a = b)
      else Inl SyntaxError)"

definition safeEval_js :: safeEval where
  "safeEval_js src =
     (case split_spaces src of
        [a, op, b] \<Rightarrow>
          (if is_numeral a \<and> is_numeral b
           then js_compare op (to_double (js_numeral a)) (to_double (js_numeral b))
           else Inl SyntaxError)
      | [pa, m, b, eq, z] \<Rightarrow>
          (if pa \<noteq> [] \<and> hd pa = CHR ''('' \<and> is_numeral (tl pa) \<and> m = ''%'' \<and> is_numeral b
              \<and> eq = ''==='' \<and> z = ''0)''
           then Inr (js_remainder_is_zero (to_double (js_numeral (tl pa)))
                       (to_double (js_numeral b)))
           else Inl SyntaxError)
      | _ \<Rightarrow> Inl SyntaxError)"

text \<open>
  Two readings of a well-formed hit condition, both free of the order in which a matcher
  tries the operators. \<open>spec_grammar\<close> follows the words of the spec,
  \<open>(operator)?(number)\<close>: an operator of the list or none, then digits, and nothing
  else. \<open>code_pattern\<close> is what the regular expression of the code describes: the
  same with any white space between the operator and the digits.
\<close>

definition operators :: "string list" where
  "operators = [''<='', ''<'', ''>='', ''>'', ''=='', ''='', ''%'']"

definition spec_grammar :: "string \<Rightarrow> bool" where
  "spec_grammar h =
     list_ex (\<lambda>op. startsWith h op \<and> is_numeral (drop (length op) h)) ([] # operators)"

definition code_pattern :: "string \<Rightarrow> bool" where
  "code_pattern h =
     list_ex (\<lambda>op. startsWith h op \<and> is_numeral (dropWhile is_space (drop (length op) h)))
       ([] # operators)"

section \<open>Log messages (evalLogMessage)\<close>

definition backslash :: char where
  "backslash = CHR 0x5C"

definition newline :: char where
  "newline = CHR 0x0A"

text \<open>The characters that \<open>.\<close> does not match, among code points below 256.\<close>

definition is_line_terminator :: "char \<Rightarrow> bool" where
  "is_line_terminator c = (code c = 10 \<or> code c = 13)"

text \<open>
  The regular expression \<open>(?<!\\)\{(?<expression>.+?)(?<!\\)\}\<close>.
  \<open>find_close e cs\<close> runs behind the opening brace, with \<open>e\<close> the characters that
  \<open>.+?\<close> has taken so far: the lazy quantifier stops at the first closing brace that
  follows at least one character and no backslash, and fails at a line terminator.
  \<open>find_match pre cs\<close> looks for the leftmost match in \<open>cs\<close>, where \<open>pre\<close> is the
  text in front of \<open>cs\<close> (the look-behind reads its last character); it returns the text
  in front of the match, the expression and the text behind the match.
\<close>

fun find_close :: "string \<Rightarrow> string \<Rightarrow> (string \<times> string) option" where
  "find_close e [] = None"
| "find_close e (c # cs) =
     (if c = CHR ''}'' \<and> e \<noteq> [] \<and> last e \<noteq> backslash then Some (e, cs)
      else if is_line_terminator c then None
      else find_close (e @ [c]) cs)"

fun find_match :: "string \<Rightarrow> string \<Rightarrow> (string \<times> string \<times> string) option" where
  "find_match pre [] = None"
| "find_match pre (c # cs) =
     (if c = CHR ''{'' \<and> (pre = [] \<or> last pre \<noteq> backslash)
      then (case find_close [] cs of
              Some (e, rest) \<Rightarrow> Some (pre, e, rest)
            | None \<Rightarrow> find_match (pre @ [c]) cs)
      else find_match (pre @ [c]) cs)"

lemma find_close_shorter: "find_close e cs = Some (x, rest) \<Longrightarrow> length rest < length cs"
  by (induction e cs rule: find_close.induct) (auto split: if_splits)

lemma find_match_shorter:
  "find_match pre cs = Some (b, x, rest) \<Longrightarrow> length rest < length cs"
proof (induction pre cs rule: find_match.induct)
  case (1 pre)
  then show ?case by simp
next
  case (2 pre c cs)
  then show ?case
    by (fastforce split: if_splits option.splits dest: find_close_shorter)
qed

text \<open>\<open>Array.from(logMessage.matchAll(regex), (x) => x[1])\<close>: the expressions of the
  successive matches, each search starting where the previous match ended.\<close>

function matchAll :: "string \<Rightarrow> string \<Rightarrow> string list" where
  "matchAll pre cs =
     (case find_match pre cs of
        None \<Rightarrow> []
      | Some (left, e, rest) \<Rightarrow> e # matchAll (left @ ''{'' @ e @ ''}'') rest)"
  by pat_completeness auto
termination
  by (relation "measure (\<lambda>(pre, cs). length cs)") (auto dest: find_match_shorter)

declare matchAll.simps [simp del]

text \<open>
  \<open>String.prototype.replace\<close> with a string as replacement expands the patterns
  \<open>$$\<close>, \<open>$&\<close>, \<open>$`\<close>, \<open>$'\<close>, \<open>$1\<close>, \<open>$01\<close> and \<open>$<name>\<close> (the expression has one
  capture group, named \<open>expression\<close>; a \<open>$1\<close> in front of a digit is still the
  group, and another name gives the empty string); any other \<open>$\<close> stands for itself.
\<close>

fun until_gt :: "string \<Rightarrow> (string \<times> string) option" where
  "until_gt [] = None"
| "until_gt (c # cs) =
     (if c = CHR ''>'' then Some ([], cs)
      else (case until_gt cs of None \<Rightarrow> None | Some (n, r) \<Rightarrow> Some (c # n, r)))"

lemma until_gt_shorter: "until_gt cs = Some (n, r) \<Longrightarrow> length r < length cs"
  by (induction cs arbitrary: n r) (auto split: if_splits option.splits)

function getSubstitution :: "string \<Rightarrow> string \<Rightarrow> string \<Rightarrow> string \<Rightarrow> string \<Rightarrow> string" where
  "getSubstitution matched left right capture [] = []"
| "getSubstitution matched left right capture [c] = [c]"
| "getSubstitution matched left right capture (c # d # r) =
     (if c \<noteq> CHR ''$'' then c # getSubstitution matched left right capture (d # r)
      else if d = CHR ''$'' then CHR ''$'' # getSubstitution matched left right capture r
      else if d = CHR ''&'' then matched @ getSubstitution matched left right capture r
      else if d = CHR ''`'' then left @ getSubstitution matched left right capture r
      else if d = CHR 0x27 then right @ getSubstitution matched left right capture r
      else if d = CHR ''1'' then capture @ getSubstitution matched left right capture r
      else if d = CHR ''0'' \<and> r \<noteq> [] \<and> hd r = CHR ''1''
        then capture @ getSubstitution matched left right capture (tl r)
      else if d = CHR ''<'' then
        (case until_gt r of
           None \<Rightarrow> CHR ''$'' # getSubstitution matched left right capture (d # r)
         | Some (groupName, r') \<Rightarrow>
             (if groupName = ''expression'' then capture else [])
             @ getSubstitution matched left right capture r')
      else CHR ''$'' # getSubstitution matched left right capture (d # r))"
  by pat_completeness auto
termination
  by (relation "measure (\<lambda>(m, b, a, e, r). length r)") (auto dest: until_gt_shorter)

text \<open>\<open>evaled.replace(new RegExp(regex.source, 'ui'), evaledExpression)\<close>: the
  leftmost match in \<open>evaled\<close> is replaced, whichever expression it holds.\<close>

definition replace_first :: "string \<Rightarrow> string \<Rightarrow> string" where
  "replace_first evaled replacement =
     (case find_match [] evaled of
        None \<Rightarrow> evaled
      | Some (left, e, right) \<Rightarrow>
          left @ getSubstitution (''{'' @ e @ ''}'') left right e replacement @ right)"

text \<open>
  \<open>fetchPrimitiveProperty\<close> belongs to the DBGp session: given a property name it
  returns the value as a string, or nothing. The callbacks of \<open>Promise.all\<close> resume in
  the order of the requests.
\<close>

definition substitute :: "(string \<Rightarrow> string option) \<Rightarrow> string \<Rightarrow> string \<Rightarrow> string" where
  "substitute fetchPrimitiveProperty evaled propertyName =
     (case fetchPrimitiveProperty propertyName of
        None \<Rightarrow> evaled
      | Some evaledExpression \<Rightarrow>
          if evaledExpression \<noteq> [] then replace_first evaled evaledExpression else evaled)"

definition evalLogMessage :: "(string \<Rightarrow> string option) \<Rightarrow> string \<Rightarrow> string" where
  "evalLogMessage fetchPrimitiveProperty logMessage =
     foldl (substitute fetchPrimitiveProperty) logMessage (matchAll [] logMessage) @ [newline]"

section \<open>The session's data\<close>

text \<open>
  The classes of the DBGp session (\<open>Breakpoint\<close>, \<open>StackFrame\<close>, \<open>Context\<close>,
  \<open>Property\<close> with \<open>ObjectProperty\<close>, \<open>ContinuationResponse\<close>) are declared outside
  the files at hand. The records hold the fields that the adapter reads and writes; an
  optional field is an option.
\<close>

record AdvancedData =
  counter :: nat
  condition :: "string option"
  hitCondition :: "string option"
  logMessage :: "string option"

record Breakpoint =
  fileUri :: string
  line :: nat
  advancedData :: "AdvancedData option"

record StackFrame =
  sf_fileUri :: string
  sf_line :: nat
  sf_name :: string

record Context =
  ctx_id :: nat
  ctx_name :: string

datatype Property = Property
  (name: string) (ptype: string) (isIndex: bool) (index: "nat option") (displayValue: string)
  (isArray: bool) (maxIndex: "nat option") (children: "Property list")

record ContinuationResponse =
  status :: string
  commandName :: string

record LaunchRequestArguments =
  stopOnEntry :: "bool option"
  maxChildren :: nat
  useAdvancedBreakpoint :: bool

text \<open>
  What the adapter sends, in the order it sends it: events and responses to the IDE,
  commands to the debuggee. \<open>trace\<close> keeps them; the other fields of \<open>Session\<close> are
  the fields of the class \<open>AhkDebugSession\<close>.
\<close>

datatype event =
    InitializedEvent
  | StoppedEvent string
  | TerminatedEvent string
  | OutputEvent string "string option"
  | ThreadEvent string

datatype command =
    FeatureSetCommand string nat
  | RunCommand
  | StepIntoCommand
  | StepOverCommand
  | StepOutCommand
  | StackGetCommand
  | BreakpointListCommand
  | BreakpointRemoveCommand nat
  | BreakpointSetCommand string nat
  | BreakpointGetCommand nat
  | ContextNamesCommand
  | ContextGetCommand
  | PropertyGetCommand

datatype effect = Event event | Command command | Response

record Session =
  contexts :: "nat \<rightharpoonup> Context"
  stackFrameIdCounter :: nat
  stackFrames :: "nat \<rightharpoonup> StackFrame"
  variableReferenceCounter :: nat
  objectProperties :: "nat \<rightharpoonup> Property"
  breakpoints :: "string \<rightharpoonup> Breakpoint"
  config :: LaunchRequestArguments
  trace :: "effect list"

definition new_session :: "LaunchRequestArguments \<Rightarrow> Session" where
  "new_session args =
     \<lparr>contexts = Map.empty, stackFrameIdCounter = 1, stackFrames = Map.empty,
      variableReferenceCounter = 1, objectProperties = Map.empty, breakpoints = Map.empty,
      config = args, trace = []\<rparr>"

definition sendEvent :: "event \<Rightarrow> Session \<Rightarrow> Session" where
  "sendEvent e s = s\<lparr>trace := trace s @ [Event e]\<rparr>"

definition sendCommand :: "command \<Rightarrow> Session \<Rightarrow> Session" where
  "sendCommand c s = s\<lparr>trace := trace s @ [Command c]\<rparr>"

definition sendResponse :: "Session \<Rightarrow> Session" where
  "sendResponse s = s\<lparr>trace := trace s @ [Response]\<rparr>"

text \<open>
  What lies outside the adapter. \<open>Externals\<close> are library functions, the same during
  a session: the sandbox and the two path conversions of the debug adapter base class.
\<close>

record Externals =
  safeEval :: safeEval
  convertClientPathToDebugger :: "string \<Rightarrow> string"
  convertDebuggerPathToClient :: "string \<Rightarrow> string"

text \<open>
  Modelled from the spec: the DBGp session and the conditional evaluator
  (\<open>dbgpSession\<close>, \<open>util/ConditionalEvaluator\<close>) are not among the files at hand.
  \<open>Debuggee\<close> is the debuggee as one break finds it: what the stack command returns
  (nothing when the command fails); what the conditional evaluator makes of a
  condition, a boolean, since by the spec an evaluation that fails counts as false and
  raises nothing; and what the fetch of a primitive property returns (nothing for an
  expression that does not resolve).
\<close>

record Debuggee =
  stackGet :: "StackFrame list option"
  conditionalEval :: "string \<Rightarrow> bool"
  fetchPrimitiveProperty :: "string \<Rightarrow> string option"

text \<open>How a promise ends: resolved, rejected, or still waiting for an answer of the
  debuggee that the script of answers does not hold.\<close>

datatype outcome = Completed | Thrown error | Awaiting

section \<open>The continuation state machine\<close>

definition breakpoint_key :: "string \<Rightarrow> nat \<Rightarrow> string" where
  "breakpoint_key filePath n = toLowerCase filePath @ string_of_nat n"

text \<open>
  \<open>getCurrentBreakpoint\<close>: a failing stack command gives null; an empty stack makes
  the destructuring of \<open>stackFrames[0]\<close> throw. The result carries the registry key
  with the record, since the caller updates the record in place.
\<close>

definition getCurrentBreakpoint ::
    "Externals \<Rightarrow> Debuggee \<Rightarrow> Session \<Rightarrow> error + (string \<times> Breakpoint) option" where
  "getCurrentBreakpoint ext dbg s =
     (case stackGet dbg of
        None \<Rightarrow> Inr None
      | Some [] \<Rightarrow> Inl TypeError
      | Some (stackFrame # _) \<Rightarrow>
          (let filePath = convertDebuggerPathToClient ext (sf_fileUri stackFrame);
               key = breakpoint_key filePath (sf_line stackFrame)
           in case breakpoints s key of
                Some breakpoint \<Rightarrow> Inr (Some (key, breakpoint))
              | None \<Rightarrow> Inr None))"

definition truthy :: "string option \<Rightarrow> bool" where
  "truthy v = (case v of None \<Rightarrow> False | Some x \<Rightarrow> x \<noteq> [])"

definition conditionResult :: "Debuggee \<Rightarrow> AdvancedData \<Rightarrow> bool" where
  "conditionResult dbg ad =
     (case condition ad of
        None \<Rightarrow> False
      | Some c \<Rightarrow> if c \<noteq> [] then conditionalEval dbg c else False)"

definition hitConditionResult_of :: "Externals \<Rightarrow> AdvancedData \<Rightarrow> bool" where
  "hitConditionResult_of ext ad =
     (case hitCondition ad of
        None \<Rightarrow> False
      | Some h \<Rightarrow> if h \<noteq> [] then hitConditionResult (safeEval ext) h (counter ad) else False)"

definition matchCondition :: "Externals \<Rightarrow> Debuggee \<Rightarrow> AdvancedData \<Rightarrow> bool" where
  "matchCondition ext dbg ad =
     (if truthy (condition ad) \<and> truthy (hitCondition ad)
      then conditionResult dbg ad \<and> hitConditionResult_of ext ad
      else if truthy (condition ad) \<or> truthy (hitCondition ad)
      then conditionResult dbg ad \<or> hitConditionResult_of ext ad
      else True)"

definition stopReason :: "ContinuationResponse \<Rightarrow> string" where
  "stopReason response =
     (if startsWith (commandName response) ''step'' then ''step'' else ''breakpoint'')"

text \<open>
  \<open>count_hit\<close> is \<open>breakpoint.advancedData.counter++\<close> on the record that the
  registry holds under \<open>key\<close>.
\<close>

definition count_hit :: "string \<Rightarrow> Breakpoint \<Rightarrow> AdvancedData \<Rightarrow> Session \<Rightarrow> Session" where
  "count_hit key breakpoint ad s =
     s\<lparr>breakpoints := (breakpoints s)(key \<mapsto> breakpoint\<lparr>advancedData := Some ad\<rparr>)\<rparr>"

text \<open>
  \<open>checkContinuationStatus\<close> and \<open>checkAdvancedBreakpoint\<close> call each other. The
  debuggee's answer to each run command, with the debuggee as that break finds it,
  comes from \<open>script\<close>; when the script is used up the adapter is left waiting.
\<close>

fun checkContinuationStatus ::
    "Externals \<Rightarrow> Session \<Rightarrow> ContinuationResponse \<Rightarrow> bool \<Rightarrow> Debuggee
      \<Rightarrow> (ContinuationResponse \<times> Debuggee) list \<Rightarrow> Session \<times> outcome"
  and checkAdvancedBreakpoint ::
    "Externals \<Rightarrow> Session \<Rightarrow> string \<Rightarrow> Breakpoint \<Rightarrow> Debuggee
      \<Rightarrow> (ContinuationResponse \<times> Debuggee) list \<Rightarrow> Session \<times> outcome"
where
  "checkContinuationStatus ext s response checkExtraBreakpoint dbg script =
     (if status response = ''stopped''
      then (sendEvent (TerminatedEvent ''Debug exited'') s, Completed)
      else if status response = ''break''
      then (if checkExtraBreakpoint
            then (case getCurrentBreakpoint ext dbg s of
                    Inl e \<Rightarrow> (sendCommand StackGetCommand s, Thrown e)
                  | Inr (Some (key, breakpoint)) \<Rightarrow>
                      checkAdvancedBreakpoint ext (sendCommand StackGetCommand s)
                        key breakpoint dbg script
                  | Inr None \<Rightarrow>
                      (sendEvent (StoppedEvent (stopReason response))
                         (sendCommand StackGetCommand s), Completed))
            else (sendEvent (StoppedEvent (stopReason response)) s, Completed))
      else (s, Completed))"
| "checkAdvancedBreakpoint ext s key breakpoint dbg script =
     (case advancedData breakpoint of
        None \<Rightarrow> (s, Completed)
      | Some ad0 \<Rightarrow>
          (let ad = ad0\<lparr>counter := js_incr (counter ad0)\<rparr>;
               s1 = count_hit key breakpoint ad s
           in if matchCondition ext dbg ad \<and> logMessage ad = None
              then (sendEvent (StoppedEvent ''conditional breakpoint'') s1, Completed)
              else
                (let s2 = (if matchCondition ext dbg ad
                           then (case logMessage ad of
                                   None \<Rightarrow> s1
                                 | Some m \<Rightarrow>
                                     sendEvent (OutputEvent
                                       (evalLogMessage (fetchPrimitiveProperty dbg) m)
                                       (Some ''log'')) s1)
                           else s1);
                     s3 = sendCommand RunCommand s2
                 in case script of
                      [] \<Rightarrow> (s3, Awaiting)
                    | (response, dbg') # rest \<Rightarrow>
                        checkContinuationStatus ext s3 response True dbg' rest)))"

section \<open>Request handlers that continue the debuggee\<close>

text \<open>
  Each handler sends its command and takes the answer from the head of the script.
  The handlers do not wait for \<open>checkContinuationStatus\<close>; the outcome given here is
  the outcome of the chain that the call starts.
\<close>

definition truthy_flag :: "bool option \<Rightarrow> bool" where
  "truthy_flag v = (v = Some True)"

definition configurationDoneRequest ::
    "Externals \<Rightarrow> Session \<Rightarrow> (ContinuationResponse \<times> Debuggee) list \<Rightarrow> Session \<times> outcome" where
  "configurationDoneRequest ext s script =
     (let s1 = sendCommand (FeatureSetCommand ''max_children'' (maxChildren (config s))) s;
          s2 = sendCommand (if truthy_flag (stopOnEntry (config s))
                            then StepIntoCommand else RunCommand) s1
      in case script of
           [] \<Rightarrow> (s2, Awaiting)
         | (dbgpResponse, dbg) # rest \<Rightarrow>
             if useAdvancedBreakpoint (config s)
             then checkContinuationStatus ext s2 dbgpResponse
                    (\<not> truthy_flag (stopOnEntry (config s))) dbg rest
             else checkContinuationStatus ext s2 dbgpResponse False dbg rest)"

definition continuation_request ::
    "command \<Rightarrow> bool \<Rightarrow> Externals \<Rightarrow> Session \<Rightarrow> (ContinuationResponse \<times> Debuggee) list
      \<Rightarrow> Session \<times> outcome" where
  "continuation_request cmd checkExtraBreakpoint ext s script =
     (case script of
        [] \<Rightarrow> (sendCommand cmd s, Awaiting)
      | (dbgpResponse, dbg) # rest \<Rightarrow>
          checkContinuationStatus ext (sendResponse (sendCommand cmd s)) dbgpResponse
            checkExtraBreakpoint dbg rest)"

definition continueRequest ::
    "Externals \<Rightarrow> Session \<Rightarrow> (ContinuationResponse \<times> Debuggee) list \<Rightarrow> Session \<times> outcome" where
  "continueRequest = continuation_request RunCommand True"

definition nextRequest ::
    "Externals \<Rightarrow> Session \<Rightarrow> (ContinuationResponse \<times> Debuggee) list \<Rightarrow> Session \<times> outcome" where
  "nextRequest = continuation_request StepOverCommand False"

definition stepInRequest ::
    "Externals \<Rightarrow> Session \<Rightarrow> (ContinuationResponse \<times> Debuggee) list \<Rightarrow> Session \<times> outcome" where
  "stepInRequest = continuation_request StepIntoCommand False"

definition stepOutRequest ::
    "Externals \<Rightarrow> Session \<Rightarrow> (ContinuationResponse \<times> Debuggee) list \<Rightarrow> Session \<times> outcome" where
  "stepOutRequest = continuation_request StepOutCommand False"

text \<open>
  The IDE and the debuggee taking turns at one place: the debuggee answers every run
  command with the same break, and the IDE continues whenever the adapter has stopped.
  \<open>evaluations ext r dbg n s\<close> is the session after \<open>n\<close> such breaks, with the
  outcome of the last one: \<open>Awaiting\<close> when the adapter has resumed the debuggee by
  itself, \<open>Completed\<close> when it has stopped.
\<close>

fun evaluations ::
    "Externals \<Rightarrow> ContinuationResponse \<Rightarrow> Debuggee \<Rightarrow> nat \<Rightarrow> Session \<Rightarrow> Session \<times> outcome" where
  "evaluations ext r dbg 0 s = (s, Completed)"
| "evaluations ext r dbg (Suc n) s =
     (case evaluations ext r dbg n s of
        (t, Awaiting) \<Rightarrow> checkContinuationStatus ext t r True dbg []
      | (t, _) \<Rightarrow> continueRequest ext t [(r, dbg)])"

section \<open>Breakpoint registry (setBreakPointsRequest)\<close>

record DbgpBreakpoint =
  db_id :: nat
  db_fileUri :: string
  db_line :: nat

record SourceBreakpoint =
  sb_line :: nat
  sb_condition :: "string option"
  sb_hitCondition :: "string option"
  sb_logMessage :: "string option"

record VscodeBreakpoint =
  vb_id :: "nat option"
  vb_line :: "nat option"
  verified :: bool
  message :: "string option"

record SetBreakpointsArguments =
  source_path :: "string option"
  arg_breakpoints :: "SourceBreakpoint list option"

text \<open>
  The debuggee's side of the request: the list it returns for the list command, and its
  answers to the set command (the \<open>index\<close>-th of the request, for a file and a line:
  an id, or an error message) and to the get command (for an id: the line, or an error
  message). Answers arrive in the order of the requests. The handler is modelled for a
  session that is not running a continuation command, where it waits for the answers.
\<close>

record BreakpointDebuggee =
  breakpointList :: "DbgpBreakpoint list"
  breakpointSet :: "nat \<Rightarrow> string \<Rightarrow> nat \<Rightarrow> string + nat"
  breakpointGet :: "nat \<Rightarrow> string + nat"

definition clear_one :: "Externals \<Rightarrow> string \<Rightarrow> Session \<Rightarrow> DbgpBreakpoint \<Rightarrow> Session" where
  "clear_one ext filePath s dbgpBreakpoint =
     (if toLowerCase filePath
           = toLowerCase (convertDebuggerPathToClient ext (db_fileUri dbgpBreakpoint))
      then sendCommand (BreakpointRemoveCommand (db_id dbgpBreakpoint))
             (s\<lparr>breakpoints :=
                  (breakpoints s)
                    (toLowerCase filePath @ string_of_nat (db_line dbgpBreakpoint) := None)\<rparr>)
      else s)"

definition new_Breakpoint :: "string \<Rightarrow> nat \<Rightarrow> SourceBreakpoint \<Rightarrow> Breakpoint" where
  "new_Breakpoint uri n vscodeBreakpoint =
     \<lparr>fileUri = uri, line = n,
      advancedData = Some \<lparr>counter = 0, condition = sb_condition vscodeBreakpoint,
                           hitCondition = sb_hitCondition vscodeBreakpoint,
                           logMessage = sb_logMessage vscodeBreakpoint\<rparr>\<rparr>"

text \<open>The body of the \<open>try\<close> after both answers have come: the lookup uses the path
  as given, the insertion the lower-cased path.\<close>

definition register_breakpoint ::
    "string \<Rightarrow> string \<Rightarrow> nat \<Rightarrow> SourceBreakpoint \<Rightarrow> Session \<Rightarrow> Session" where
  "register_breakpoint filePath uri n vscodeBreakpoint s =
     (let found = breakpoints s (filePath @ string_of_nat n);
          merged = (case found of
                      None \<Rightarrow> None
                    | Some dbgpBreakpoint \<Rightarrow>
                        (case advancedData dbgpBreakpoint of
                           None \<Rightarrow> None
                         | Some ad \<Rightarrow>
                             Some (dbgpBreakpoint\<lparr>advancedData :=
                               Some (ad\<lparr>condition := sb_condition vscodeBreakpoint,
                                        hitCondition := sb_hitCondition vscodeBreakpoint,
                                        logMessage := sb_logMessage vscodeBreakpoint\<rparr>)\<rparr>)))
      in case merged of
           Some dbgpBreakpoint \<Rightarrow>
             s\<lparr>breakpoints := (breakpoints s)(filePath @ string_of_nat n \<mapsto> dbgpBreakpoint)\<rparr>
         | None \<Rightarrow>
             s\<lparr>breakpoints := (breakpoints s)
                  (toLowerCase filePath @ string_of_nat n \<mapsto> new_Breakpoint uri n vscodeBreakpoint)\<rparr>)"

fun set_each ::
    "BreakpointDebuggee \<Rightarrow> string \<Rightarrow> string \<Rightarrow> nat \<Rightarrow> SourceBreakpoint list \<Rightarrow> Session
      \<Rightarrow> Session \<times> VscodeBreakpoint list" where
  "set_each d filePath uri i [] s = (s, [])"
| "set_each d filePath uri i (vscodeBreakpoint # rest) s =
     (case breakpointSet d i uri (sb_line vscodeBreakpoint) of
        Inl msg \<Rightarrow>
          (let (s', rs) = set_each d filePath uri (i + 1) rest s
           in (s', \<lparr>vb_id = None, vb_line = None, verified = False, message = Some msg\<rparr> # rs))
      | Inr ident \<Rightarrow>
          (case breakpointGet d ident of
             Inl msg \<Rightarrow>
               (let (s', rs) = set_each d filePath uri (i + 1) rest
                                 (sendCommand (BreakpointGetCommand ident) s)
                in (s', \<lparr>vb_id = None, vb_line = None, verified = False,
                          message = Some msg\<rparr> # rs))
           | Inr n \<Rightarrow>
               (let (s', rs) = set_each d filePath uri (i + 1) rest
                                 (register_breakpoint filePath uri n vscodeBreakpoint
                                    (sendCommand (BreakpointGetCommand ident) s))
                in (s', \<lparr>vb_id = Some ident, vb_line = Some n, verified = True,
                          message = None\<rparr> # rs))))"

definition setBreakPointsRequest ::
    "Externals \<Rightarrow> BreakpointDebuggee \<Rightarrow> SetBreakpointsArguments \<Rightarrow> Session
      \<Rightarrow> Session \<times> VscodeBreakpoint list" where
  "setBreakPointsRequest ext d args s =
     (let filePath = (case source_path args of None \<Rightarrow> [] | Some p \<Rightarrow> p);
          uri = convertClientPathToDebugger ext filePath;
          s1 = foldl (clear_one ext filePath) (sendCommand BreakpointListCommand s)
                 (breakpointList d);
          (s2, vscodeBreakpoints) =
            (case arg_breakpoints args of
               None \<Rightarrow> (s1, [])
             | Some bs \<Rightarrow>
                 set_each d filePath uri 0 bs
                   (foldl (\<lambda>t b. sendCommand (BreakpointSetCommand uri (sb_line b)) t) s1 bs))
      in (sendResponse s2, vscodeBreakpoints))"

section \<open>Handles: stack frames, scopes and variables\<close>

















section \<open>The primitive library (library.ts)\<close>

text \<open>
  An evaluated value is undefined, a string, a number, a boolean or an object property;
  the representation of numbers plays no part here and is left open. A library function
  takes the values passed to it; a parameter that is not passed is undefined.
\<close>

datatype 'n EvaluatedValue =
    Undefined
  | String string
  | Number 'n
  | Boolean bool
  | ObjectProperty Property

definition typeof :: "'n EvaluatedValue \<Rightarrow> string" where
  "typeof v =
     (case v of
        Undefined \<Rightarrow> ''undefined''
      | String _ \<Rightarrow> ''string''
      | Number _ \<Rightarrow> ''number''
      | Boolean _ \<Rightarrow> ''boolean''
      | ObjectProperty _ \<Rightarrow> ''object'')"

definition first_param :: "'n EvaluatedValue list \<Rightarrow> 'n EvaluatedValue" where
  "first_param params = (case params of [] \<Rightarrow> Undefined | v # _ \<Rightarrow> v)"

definition isSet :: "'n EvaluatedValue list \<Rightarrow> bool" where
  "isSet params = (typeof (first_param params) = ''undefined'')"

definition isString :: "'n EvaluatedValue list \<Rightarrow> bool" where
  "isString params = (typeof (first_param params) = ''string'')"

definition isNumber :: "'n EvaluatedValue list \<Rightarrow> bool" where
  "isNumber params = (typeof (first_param params) = ''number'')"

text \<open>The entries that \<open>library_for_v1\<close> and \<open>library_for_v2\<close> receive for these
  functions, in the order of the \<open>set\<close> calls; both libraries receive the same.\<close>

definition library_for_v1 :: "(string \<times> ('n EvaluatedValue list \<Rightarrow> bool)) list" where
  "library_for_v1 =
     [(''IsSet'', isSet), (''IsUndefined'', isSet), (''IsString'', isString),
      (''IsNumber'', isNumber)]"

definition library_for_v2 :: "(string \<times> ('n EvaluatedValue list \<Rightarrow> bool)) list" where
  "library_for_v2 =
     [(''IsSet'', isSet), (''IsUndefined'', isSet), (''IsString'', isString),
      (''IsNumber'', isNumber)]"

section \<open>Templates of log messages\<close>

text \<open>
  A log message written as literal texts alternating with expressions in braces, and
  what it should render to when every expression is fetched. \<open>unopened b s\<close> says
  that every opening brace in \<open>s\<close> follows a backslash, where \<open>b\<close> tells whether a
  backslash stands in front of \<open>s\<close>.
\<close>

fun template :: "(string \<times> string) list \<Rightarrow> string \<Rightarrow> string" where
  "template [] tail = tail"
| "template ((lit, e) # segs) tail = lit @ ''{'' @ e @ ''}'' @ template segs tail"

fun rendering :: "(string \<Rightarrow> string option) \<Rightarrow> (string \<times> string) list \<Rightarrow> string \<Rightarrow> string" where
  "rendering f [] tail = tail"
| "rendering f ((lit, e) # segs) tail =
     lit @ (case f e of None \<Rightarrow> [] | Some v \<Rightarrow> v) @ rendering f segs tail"

fun unopened :: "bool \<Rightarrow> string \<Rightarrow> bool" where
  "unopened b [] = True"
| "unopened b (c # cs) = ((c = CHR ''{'' \<longrightarrow> b) \<and> unopened (c = backslash) cs)"

definition ends_plain :: "string \<Rightarrow> bool" where
  "ends_plain s = (s = [] \<or> last s \<noteq> backslash)"

definition literal_text :: "string \<Rightarrow> bool" where
  "literal_text s = (unopened False s \<and> ends_plain s)"

definition expression_text :: "string \<Rightarrow> bool" where
  "expression_text e =
     (e \<noteq> [] \<and> (\<forall>c \<in> set e. c \<noteq> CHR ''}'' \<and> \<not> is_line_terminator c) \<and> last e \<noteq> backslash)"

definition value_text :: "string option \<Rightarrow> bool" where
  "value_text r =
     (case r of None \<Rightarrow> False
      | Some v \<Rightarrow> v \<noteq> [] \<and> literal_text v \<and> CHR ''$'' \<notin> set v)"

section \<open>A small debuggee for the examples\<close>

definition plain_paths :: Externals where
  "plain_paths =
     \<lparr>safeEval = safeEval_js, convertClientPathToDebugger = (\<lambda>p. p),
      convertDebuggerPathToClient = (\<lambda>p. p)\<rparr>"

definition failing_sandbox :: Externals where
  "failing_sandbox = plain_paths\<lparr>safeEval := (\<lambda>src. Inl (EvalError src))\<rparr>"

definition x_is_42 :: "string \<Rightarrow> string option" where
  "x_is_42 p = (if p = ''x'' then Some ''42'' else None)"

definition at_line :: "nat \<Rightarrow> Debuggee" where
  "at_line n =
     \<lparr>stackGet = Some [\<lparr>sf_fileUri = ''demo.ahk'', sf_line = n, sf_name = ''main''\<rparr>],
      conditionalEval = (\<lambda>c. c = ''true''),
      fetchPrimitiveProperty = x_is_42\<rparr>"

definition break_after :: "string \<Rightarrow> ContinuationResponse" where
  "break_after cmd = \<lparr>status = ''break'', commandName = cmd\<rparr>"

definition launch :: "bool option \<Rightarrow> bool \<Rightarrow> LaunchRequestArguments" where
  "launch entry advanced =
     \<lparr>stopOnEntry = entry, maxChildren = 10, useAdvancedBreakpoint = advanced\<rparr>"

text \<open>A debuggee that lists the breakpoints \<open>listed\<close>, gives a breakpoint at line \<open>n\<close> the
  id \<open>100 + n\<close> and resolves it to the line asked for.\<close>

definition breakpoint_debuggee :: "DbgpBreakpoint list \<Rightarrow> BreakpointDebuggee" where
  "breakpoint_debuggee listed =
     \<lparr>breakpointList = listed, breakpointSet = (\<lambda>i uri n. Inr (100 + n)),
      breakpointGet = (\<lambda>ident. Inr (ident - 100))\<rparr>"

definition demo_breakpoints :: "SourceBreakpoint list \<Rightarrow> SetBreakpointsArguments" where
  "demo_breakpoints bs = \<lparr>source_path = Some ''demo.ahk'', arg_breakpoints = Some bs\<rparr>"

definition at_7 :: "string option \<Rightarrow> string option \<Rightarrow> string option \<Rightarrow> SourceBreakpoint" where
  "at_7 c h m = \<lparr>sb_line = 7, sb_condition = c, sb_hitCondition = h, sb_logMessage = m\<rparr>"

text \<open>A session with one breakpoint at line 7 of demo.ahk, set through the handler.\<close>

definition session_with :: "LaunchRequestArguments \<Rightarrow> SourceBreakpoint \<Rightarrow> Session" where
  "session_with args b =
     fst (setBreakPointsRequest plain_paths (breakpoint_debuggee []) (demo_breakpoints [b])
            (new_session args))"

text \<open>The same after two continues that stopped at line 7 with a false condition and
  a third that stopped elsewhere: the breakpoint has been evaluated twice.\<close>

definition hit_twice :: Session where
  "hit_twice =
     fst (configurationDoneRequest plain_paths
            (session_with (launch None True) (at_7 (Some ''false'') None None))
            [(break_after ''run'', at_line 7), (break_after ''run'', at_line 7),
             (break_after ''run'', at_line 8)])"

definition counted :: "nat \<Rightarrow> string option \<Rightarrow> string option \<Rightarrow> string option \<Rightarrow> Breakpoint" where
  "counted n c h m =
     \<lparr>fileUri = ''demo.ahk'', line = 7,
      advancedData = Some \<lparr>counter = n, condition = c, hitCondition = h, logMessage = m\<rparr>\<rparr>"

definition entry_session :: Session where
  "entry_session = session_with (launch (Some True) True) (at_7 (Some ''false'') None None)"

definition plain_session :: Session where
  "plain_session = session_with (launch None True) (at_7 None None None)"

definition unchecked_session :: Session where
  "unchecked_session = session_with (launch None False) (at_7 (Some ''false'') None None)"

definition every_third :: Session where
  "every_third = session_with (launch None True) (at_7 None (Some ''%3'') None)"

definition demo_frame :: StackFrame where
  "demo_frame = \<lparr>sf_fileUri = ''demo.ahk'', sf_line = 7, sf_name = ''main''\<rparr>"








section \<open>The primitive library: IsSet and IsUndefined\<close>

text \<open>
  C10. \<open>IsSet\<close> and \<open>IsUndefined\<close> are entered in both libraries with the one function
  \<open>isSet\<close>, which returns true exactly when its argument is undefined (also when no
  argument is passed); on a string, a number, a boolean or an object property it
  returns false.
\<close>

theorem isSet_is_isUndefined:
  "map_of library_for_v1 ''IsSet'' = Some (isSet :: 'n EvaluatedValue list \<Rightarrow> bool)
   \<and> map_of library_for_v1 ''IsUndefined'' = Some (isSet :: 'n EvaluatedValue list \<Rightarrow> bool)
   \<and> map_of library_for_v2 ''IsSet'' = Some (isSet :: 'n EvaluatedValue list \<Rightarrow> bool)
   \<and> map_of library_for_v2 ''IsUndefined'' = Some (isSet :: 'n EvaluatedValue list \<Rightarrow> bool)
   \<and> isSet (v # ps) = (v = (Undefined :: 'n EvaluatedValue))
   \<and> isSet ([] :: 'n EvaluatedValue list)
   \<and> isSet (String str # ps) = False
   \<and> isSet (Number (num :: 'n) # ps) = False
   \<and> isSet (Boolean b # ps) = False
   \<and> isSet (ObjectProperty prop # ps) = False"
  by (cases v) (simp_all add: library_for_v1_def library_for_v2_def isSet_def first_param_def
      typeof_def)

section \<open>Combining the condition and the hit condition\<close>

text \<open>
  C7. A condition or hit condition is present when the code's test of it succeeds, that
  is, when it is a non-empty string. With both present the combined result is the
  conjunction of the condition's result and the hit condition's result; with only the
  condition present it is the condition's result; with only the hit condition present
  it is the hit condition's result; with neither present it is true.
\<close>

theorem matchCondition_combination:
  "(c \<noteq> [] \<and> h \<noteq> [] \<longrightarrow>
      matchCondition ext dbg \<lparr>counter = n, condition = Some c, hitCondition = Some h, logMessage = m\<rparr>
        = (conditionalEval dbg c \<and> hitConditionResult (safeEval ext) h n))
   \<and> (c \<noteq> [] \<and> \<not> truthy h' \<longrightarrow>
      matchCondition ext dbg \<lparr>counter = n, condition = Some c, hitCondition = h', logMessage = m\<rparr>
        = conditionalEval dbg c)
   \<and> (\<not> truthy c' \<and> h \<noteq> [] \<longrightarrow>
      matchCondition ext dbg \<lparr>counter = n, condition = c', hitCondition = Some h, logMessage = m\<rparr>
        = hitConditionResult (safeEval ext) h n)
   \<and> (\<not> truthy c' \<and> \<not> truthy h' \<longrightarrow>
      matchCondition ext dbg \<lparr>counter = n, condition = c', hitCondition = h', logMessage = m\<rparr>)"
  by (auto simp: matchCondition_def conditionResult_def hitConditionResult_of_def truthy_def
      split: option.splits)

theorem matchCondition_combination_witness:
  "matchCondition plain_paths (at_line 7)
      \<lparr>counter = 4, condition = Some ''true'', hitCondition = Some ''5'', logMessage = None\<rparr>
     = (conditionalEval (at_line 7) ''true''
        \<and> hitConditionResult (safeEval plain_paths) ''5'' 4)
   \<and> matchCondition plain_paths (at_line 7)
      \<lparr>counter = 4, condition = Some ''true'', hitCondition = None, logMessage = None\<rparr>
     = conditionalEval (at_line 7) ''true''
   \<and> matchCondition plain_paths (at_line 7)
      \<lparr>counter = 4, condition = Some [], hitCondition = Some ''5'', logMessage = None\<rparr>
     = hitConditionResult (safeEval plain_paths) ''5'' 4
   \<and> matchCondition plain_paths (at_line 7)
      \<lparr>counter = 4, condition = Some [], hitCondition = None, logMessage = None\<rparr>"
  using matchCondition_combination [of "''true''" "''5''" plain_paths "at_line 7" 4 None None "Some []"]
  by (simp add: truthy_def)

section \<open>Hit conditions against the counter\<close>

lemma code_digit_char: "d < 10 \<Longrightarrow> code (digit_char d) = 48 + d"
  by (simp add: code_def digit_char_def)

lemma digit_char_props:
  assumes "d < 10"
  shows "is_digit (digit_char d)" and "digit_value (digit_char d) = d"
    and "digit_char d \<noteq> CHR '' ''"
proof -
  show "is_digit (digit_char d)" and "digit_value (digit_char d) = d"
    using assms by (simp_all add: is_digit_def digit_value_def code_digit_char)
  have "code (digit_char d) \<noteq> code CHR '' ''"
    using assms by (simp add: code_digit_char) (simp add: code_def)
  then show "digit_char d \<noteq> CHR '' ''" by auto
qed

lemma string_of_nat_digits: "list_all is_digit (string_of_nat n)"
proof (induction n rule: string_of_nat.induct)
  case (1 n)
  show ?case
  proof (cases "n < 10")
    case True
    then show ?thesis
      by (simp add: string_of_nat.simps [of n] digit_char_props)
  next
    case False
    then show ?thesis
      using 1 by (simp add: string_of_nat.simps [of n] digit_char_props)
  qed
qed

lemma string_of_nat_nonempty: "string_of_nat n \<noteq> []"
  by (simp add: string_of_nat.simps [of n])

lemma digit_not_space: "is_digit c \<Longrightarrow> c \<noteq> CHR '' ''"
  by (auto simp: is_digit_def code_def)

lemma string_of_nat_no_space: "CHR '' '' \<notin> set (string_of_nat n)"
  using string_of_nat_digits [of n] digit_not_space by (auto simp: list_all_iff)

lemma value_in_base_snoc: "value_in_base b (ds @ [c]) = value_in_base b ds * b + digit_value c"
  by (simp add: value_in_base_def)

lemma value_string_of_nat: "value_in_base 10 (string_of_nat n) = n"
proof (induction n rule: string_of_nat.induct)
  case (1 n)
  show ?case
  proof (cases "n < 10")
    case True
    then show ?thesis
      by (simp add: string_of_nat.simps [of n] value_in_base_def digit_char_props)
  next
    case False
    then have "value_in_base 10 (string_of_nat n) = (n div 10) * 10 + n mod 10"
      using 1 by (simp add: string_of_nat.simps [of n] value_in_base_snoc digit_char_props)
    then show ?thesis by simp
  qed
qed

lemma hd_string_of_nat: "0 < n \<Longrightarrow> hd (string_of_nat n) \<noteq> CHR ''0''"
proof (induction n rule: string_of_nat.induct)
  case (1 n)
  show ?case
  proof (cases "n < 10")
    case True
    have "code (digit_char n) \<noteq> code CHR ''0''"
      using True 1(2) by (simp add: code_digit_char) (simp add: code_def)
    then have "digit_char n \<noteq> CHR ''0''" by auto
    then show ?thesis
      using True by (simp add: string_of_nat.simps [of n])
  next
    case False
    then have "hd (string_of_nat (n div 10)) \<noteq> CHR ''0''"
      using 1 by simp
    then show ?thesis
      using False by (simp add: string_of_nat.simps [of n] string_of_nat_nonempty)
  qed
qed

lemma length_string_of_nat_small: "n < 10 \<Longrightarrow> length (string_of_nat n) = 1"
  by (simp add: string_of_nat.simps [of n])

lemma js_numeral_string_of_nat: "js_numeral (string_of_nat n) = n"
proof (cases "n = 0")
  case True
  then show ?thesis
    by (simp add: js_numeral_def length_string_of_nat_small value_string_of_nat)
next
  case False
  then show ?thesis
    using hd_string_of_nat [of n] by (simp add: js_numeral_def value_string_of_nat)
qed

lemma is_numeral_string_of_nat: "is_numeral (string_of_nat n)"
  by (simp add: is_numeral_def string_of_nat_digits string_of_nat_nonempty)

lemma split_spaces_nonempty: "split_spaces s \<noteq> []"
  by (induction s) (auto split: list.splits)

lemma split_spaces_word:
  "CHR '' '' \<notin> set a \<Longrightarrow> split_spaces (a @ CHR '' '' # rest) = a # split_spaces rest"
  by (induction a) (auto split: list.splits)

lemma safeEval_js_mod:
  assumes "is_numeral number" and "CHR '' '' \<notin> set number"
  shows "safeEval_js (hitCondition_code k (Some ''%'') number) =
           Inr (js_remainder_is_zero (to_double k) (to_double (js_numeral number)))"
proof -
  have sp: "CHR '' '' \<notin> set (''('' @ string_of_nat k)"
    using string_of_nat_no_space [of k] by simp
  have "hitCondition_code k (Some ''%'') number =
          (''('' @ string_of_nat k) @ CHR '' '' # (''%'' @ CHR '' '' # (number @ CHR '' '' # (''==='' @ CHR '' '' # ''0)'')))"
    by (simp add: hitCondition_code_def)
  then have "split_spaces (hitCondition_code k (Some ''%'') number) =
          [''('' @ string_of_nat k, ''%'', number, ''==='', ''0)'']"
    using sp assms(2) by (simp only: split_spaces_word) (simp add: split_spaces_word)
  then show ?thesis
    using assms(1)
    by (simp add: safeEval_js_def is_numeral_string_of_nat js_numeral_string_of_nat)
qed

lemma safeEval_js_ge:
  assumes "is_numeral number" and "CHR '' '' \<notin> set number"
  shows "safeEval_js (hitCondition_code k None number) =
           Inr (js_le (to_double (js_numeral number)) (to_double k))"
proof -
  have "hitCondition_code k None number =
          string_of_nat k @ CHR '' '' # (''>='' @ CHR '' '' # number)"
    by (simp add: hitCondition_code_def)
  then have "split_spaces (hitCondition_code k None number) =
          string_of_nat k # ''>='' # split_spaces number"
    using string_of_nat_no_space [of k] by (simp only: split_spaces_word) (simp add: split_spaces_word)
  moreover have "split_spaces number = [number]"
    using assms(2) by (induction number) (auto split: list.splits)
  ultimately show ?thesis
    using assms(1)
    by (simp add: safeEval_js_def is_numeral_string_of_nat js_numeral_string_of_nat js_compare_def)
qed

lemma match_percent3: "match_hitCondition ''%3'' = Some (Some ''%'', ''3'')"
  by (simp add: match_hitCondition_def startsWith_def match_rest_def is_space_def is_digit_def code_def)

lemma match_5: "match_hitCondition ''5'' = Some (None, ''5'')"
  by (simp add: match_hitCondition_def startsWith_def match_rest_def is_space_def is_digit_def code_def)

lemma match_ge5: "match_hitCondition ''>=5'' = Some (Some ''>='', ''5'')"
  by (simp add: match_hitCondition_def startsWith_def match_rest_def is_space_def is_digit_def code_def)

lemma js_numeral_3: "js_numeral ''3'' = 3" "js_numeral ''5'' = 5" "is_numeral ''3''" "is_numeral ''5''"
  by (simp_all add: js_numeral_def value_in_base_def digit_value_def code_def is_numeral_def is_digit_def)

lemma to_double_exact: "k \<le> MAX_EXACT \<Longrightarrow> to_double k = Some k"
proof (cases "k < MAX_EXACT")
  case True
  then show ?thesis by (simp add: to_double_def)
next
  case False
  assume "k \<le> MAX_EXACT"
  then have "k = MAX_EXACT" using False by simp
  moreover have "to_double MAX_EXACT = Some MAX_EXACT" by code_simp
  ultimately show ?thesis by simp
qed

lemma code_ge_same: "hitCondition_code c (Some ''>='') number = hitCondition_code c None number"
  by (simp add: hitCondition_code_def)

lemma third_evaluation:
  "k \<le> MAX_EXACT \<Longrightarrow> hitConditionResult safeEval_js ''%3'' k = (k mod 3 = 0)"
  by (simp add: hitConditionResult_def match_percent3 safeEval_js_mod js_numeral_3
      to_double_exact js_remainder_is_zero_def MAX_EXACT_def)

lemma at_least_five:
  "k \<le> MAX_EXACT \<Longrightarrow> hitConditionResult safeEval_js ''5'' k = (5 \<le> k)"
  by (simp add: hitConditionResult_def match_5 safeEval_js_ge js_numeral_3
      to_double_exact js_le_def MAX_EXACT_def)

lemma found_at:
  assumes "stackGet dbg = Some (f # fs)"
    and "breakpoint_key (convertDebuggerPathToClient ext (sf_fileUri f)) (sf_line f) = key"
    and "breakpoints t key = Some b"
  shows "getCurrentBreakpoint ext dbg t = Inr (Some (key, b))"
  using assms by (simp add: getCurrentBreakpoint_def Let_def)

lemma one_evaluation:
  assumes "stackGet dbg = Some (f # fs)"
    and "breakpoint_key (convertDebuggerPathToClient ext (sf_fileUri f)) (sf_line f) = key"
    and "breakpoints t key = Some b" and "advancedData b = Some a"
    and "hitCondition a = Some ''%3''" and "\<not> truthy (condition a)" and "logMessage a = None"
    and "safeEval ext = safeEval_js" and "status r = ''break''" and "counter a < MAX_EXACT"
  shows "checkContinuationStatus ext t r True dbg [] =
           (if Suc (counter a) mod 3 = 0
            then (sendEvent (StoppedEvent ''conditional breakpoint'')
                    (count_hit key b (a\<lparr>counter := Suc (counter a)\<rparr>)
                       (sendCommand StackGetCommand t)), Completed)
            else (sendCommand RunCommand
                    (count_hit key b (a\<lparr>counter := Suc (counter a)\<rparr>)
                       (sendCommand StackGetCommand t)), Awaiting))"
proof -
  have g: "getCurrentBreakpoint ext dbg t = Inr (Some (key, b))"
    using assms(1,2,3) by (rule found_at)
  have i: "js_incr (counter a) = Suc (counter a)"
    using assms(10) by (simp add: js_incr_def)
  have "Suc (counter a) \<le> MAX_EXACT"
    using assms(10) by simp
  then have "matchCondition ext dbg (a\<lparr>counter := Suc (counter a)\<rparr>) = (Suc (counter a) mod 3 = 0)"
    using assms(5,6,8) third_evaluation [of "Suc (counter a)"]
    by (simp add: matchCondition_def truthy_def conditionResult_def hitConditionResult_of_def
        split: option.splits)
  then show ?thesis
    using g assms(4,7,9) by (simp add: i Let_def)
qed

lemma evaluations_count:
  assumes "stackGet dbg = Some (f # fs)"
    and "breakpoint_key (convertDebuggerPathToClient ext (sf_fileUri f)) (sf_line f) = key"
    and "breakpoints s key = Some bp" and "advancedData bp = Some ad" and "counter ad = 0"
    and "hitCondition ad = Some ''%3''" and "\<not> truthy (condition ad)" and "logMessage ad = None"
    and "safeEval ext = safeEval_js" and "status r = ''break''" and "n \<le> MAX_EXACT"
  shows "breakpoints (fst (evaluations ext r dbg n s)) key
           = Some (bp\<lparr>advancedData := Some (ad\<lparr>counter := n\<rparr>)\<rparr>)
    \<and> snd (evaluations ext r dbg n s) = (if n mod 3 = 0 then Completed else Awaiting)"
  using assms(11)
proof (induction n)
  case 0
  have "ad\<lparr>counter := 0\<rparr> = ad"
    using assms(5) by (cases ad) simp
  moreover have "bp\<lparr>advancedData := Some ad\<rparr> = bp"
    using assms(4) by (cases bp) simp
  ultimately show ?case
    using assms(3) by simp
next
  case (Suc n)
  obtain t out where e: "evaluations ext r dbg n s = (t, out)"
    by (cases "evaluations ext r dbg n s")
  define b where "b = bp\<lparr>advancedData := Some (ad\<lparr>counter := n\<rparr>)\<rparr>"
  define a where "a = ad\<lparr>counter := n\<rparr>"
  have ih: "breakpoints t key = Some b" "out = (if n mod 3 = 0 then Completed else Awaiting)"
    using Suc.IH Suc.prems e by (simp_all add: b_def)
  have a: "advancedData b = Some a" "hitCondition a = Some ''%3''" "\<not> truthy (condition a)"
    "logMessage a = None" "counter a < MAX_EXACT"
    using assms(6,7,8) Suc.prems by (simp_all add: a_def b_def)
  define t' where "t' = (if out = Awaiting then t else sendResponse (sendCommand RunCommand t))"
  have next_eval: "evaluations ext r dbg (Suc n) s = checkContinuationStatus ext t' r True dbg []"
    using e ih(2)
    by (simp add: t'_def continueRequest_def continuation_request_def
        del: checkContinuationStatus.simps)
  have reg: "breakpoints t' key = Some b"
    using ih(1) by (simp add: t'_def sendResponse_def sendCommand_def)
  have upd: "b\<lparr>advancedData := Some (a\<lparr>counter := Suc (counter a)\<rparr>)\<rparr>
               = bp\<lparr>advancedData := Some (ad\<lparr>counter := Suc n\<rparr>)\<rparr>"
    by (simp add: a_def b_def)
  show ?case
    unfolding next_eval
      one_evaluation [OF assms(1,2) reg a(1,2,3,4) assms(9,10) a(5)]
    using upd
    by (simp add: count_hit_def sendEvent_def sendCommand_def a_def)
qed


text \<open>
  C6. For every value \<open>k\<close> of the counter (a JavaScript number that counts up from 0,
  so at most \<open>2^53\<close>) the hit condition \<open>%3\<close> matches exactly when \<open>k\<close> is a
  multiple of 3, and \<open>5\<close> gives what \<open>>=5\<close> gives (in any sandbox), namely whether
  \<open>5 \<le> k\<close>. Take a new breakpoint whose only condition is the hit condition \<open>%3\<close>,
  a debuggee that breaks there again and again, and an IDE that continues after every
  stop. After \<open>n\<close> breaks the counter in the registry is \<open>n\<close>, and the adapter has
  stopped after the \<open>n\<close>-th break exactly when \<open>n\<close> is a multiple of 3 (before the
  first break, \<open>n = 0\<close>, the debuggee stands still as well); otherwise it has
  resumed the debuggee. The next break adds to the trace the run command and the
  response of the IDE's continue if the adapter had stopped, then the stack command,
  and then the stopped event if \<open>n + 1\<close> is a multiple of 3 and the run command
  otherwise.
\<close>

theorem hit_condition_modulo_and_default:
  assumes "stackGet dbg = Some (f # fs)"
    and "breakpoint_key (convertDebuggerPathToClient ext (sf_fileUri f)) (sf_line f) = key"
    and "breakpoints s key = Some bp" and "advancedData bp = Some ad" and "counter ad = 0"
    and "hitCondition ad = Some ''%3''" and "\<not> truthy (condition ad)" and "logMessage ad = None"
    and "safeEval ext = safeEval_js" and "status r = ''break''"
    and "n < MAX_EXACT" and "k \<le> MAX_EXACT"
  shows "hitConditionResult safeEval_js ''%3'' k = (k mod 3 = 0)
    \<and> hitConditionResult sandbox ''5'' k = hitConditionResult sandbox ''>=5'' k
    \<and> hitConditionResult safeEval_js ''5'' k = (5 \<le> k)
    \<and> breakpoints (fst (evaluations ext r dbg n s)) key
        = Some (bp\<lparr>advancedData := Some (ad\<lparr>counter := n\<rparr>)\<rparr>)
    \<and> snd (evaluations ext r dbg n s) = (if n mod 3 = 0 then Completed else Awaiting)
    \<and> breakpoints (fst (evaluations ext r dbg (Suc n) s)) key
        = Some (bp\<lparr>advancedData := Some (ad\<lparr>counter := Suc n\<rparr>)\<rparr>)
    \<and> trace (fst (evaluations ext r dbg (Suc n) s))
        = trace (fst (evaluations ext r dbg n s))
          @ (if n mod 3 = 0 then [Command RunCommand, Response] else [])
          @ [Command StackGetCommand,
             if Suc n mod 3 = 0 then Event (StoppedEvent ''conditional breakpoint'')
             else Command RunCommand]"
proof -
  have same: "hitConditionResult sandbox ''5'' k = hitConditionResult sandbox ''>=5'' k"
    by (simp add: hitConditionResult_def match_5 match_ge5 code_ge_same)
  have "n \<le> MAX_EXACT" "Suc n \<le> MAX_EXACT"
    using assms(11) by simp_all
  note now = evaluations_count [OF assms(1-10) this(1)]
  note later = evaluations_count [OF assms(1-10) \<open>Suc n \<le> MAX_EXACT\<close>]
  obtain t out where e: "evaluations ext r dbg n s = (t, out)"
    by (cases "evaluations ext r dbg n s")
  define b where "b = bp\<lparr>advancedData := Some (ad\<lparr>counter := n\<rparr>)\<rparr>"
  define a where "a = ad\<lparr>counter := n\<rparr>"
  have ih: "breakpoints t key = Some b" "out = (if n mod 3 = 0 then Completed else Awaiting)"
    using now e by (simp_all add: b_def)
  have a: "advancedData b = Some a" "hitCondition a = Some ''%3''" "\<not> truthy (condition a)"
    "logMessage a = None" "counter a < MAX_EXACT"
    using assms(6,7,8,11) by (simp_all add: a_def b_def)
  define t' where "t' = (if out = Awaiting then t else sendResponse (sendCommand RunCommand t))"
  have next_eval: "evaluations ext r dbg (Suc n) s = checkContinuationStatus ext t' r True dbg []"
    using e ih(2)
    by (simp add: t'_def continueRequest_def continuation_request_def
        del: checkContinuationStatus.simps)
  have reg: "breakpoints t' key = Some b"
    using ih(1) by (simp add: t'_def sendResponse_def sendCommand_def)
  have tr: "trace (fst (evaluations ext r dbg (Suc n) s))
        = trace (fst (evaluations ext r dbg n s))
          @ (if n mod 3 = 0 then [Command RunCommand, Response] else [])
          @ [Command StackGetCommand,
             if Suc n mod 3 = 0 then Event (StoppedEvent ''conditional breakpoint'')
             else Command RunCommand]"
    unfolding next_eval
      one_evaluation [OF assms(1,2) reg a(1,2,3,4) assms(9,10) a(5)]
    using e ih(2)
    by (simp add: count_hit_def sendEvent_def sendCommand_def sendResponse_def a_def t'_def)
  show ?thesis
    using third_evaluation [OF assms(12)] same at_least_five [OF assms(12)] now later tr
    by blast
qed


theorem hit_condition_modulo_and_default_witness:
  "hitConditionResult safeEval_js ''%3'' 6
   \<and> \<not> hitConditionResult safeEval_js ''%3'' 7
   \<and> snd (evaluations plain_paths (break_after ''run'') (at_line 7) 5 every_third) = Awaiting
   \<and> snd (evaluations plain_paths (break_after ''run'') (at_line 7) 6 every_third) = Completed
   \<and> breakpoints (fst (evaluations plain_paths (break_after ''run'') (at_line 7) 6 every_third))
         ''demo.ahk7''
       = Some (counted 6 None (Some ''%3'') None)
   \<and> trace (fst (evaluations plain_paths (break_after ''run'') (at_line 7) 6 every_third))
       = trace (fst (evaluations plain_paths (break_after ''run'') (at_line 7) 5 every_third))
         @ [Command StackGetCommand, Event (StoppedEvent ''conditional breakpoint'')]"
proof -
  have h: "stackGet (at_line 7) = Some (demo_frame # [])"
    "breakpoint_key (convertDebuggerPathToClient plain_paths (sf_fileUri demo_frame))
       (sf_line demo_frame) = ''demo.ahk7''"
    "breakpoints every_third ''demo.ahk7'' = Some (counted 0 None (Some ''%3'') None)"
    "advancedData (counted 0 None (Some ''%3'') None)
       = Some \<lparr>counter = 0, condition = None, hitCondition = Some ''%3'', logMessage = None\<rparr>"
    "status (break_after ''run'') = ''break''"
    by code_simp+
  have e: "safeEval plain_paths = safeEval_js"
    by (simp add: plain_paths_def)
  have b: "(5::nat) < MAX_EXACT" "(6::nat) < MAX_EXACT" "(6::nat) \<le> MAX_EXACT"
    "(7::nat) \<le> MAX_EXACT"
    by (simp_all add: MAX_EXACT_def)
  have c: "counter \<lparr>counter = 0, condition = None, hitCondition = Some ''%3'',
                     logMessage = None\<rparr> = 0"
    "hitCondition \<lparr>counter = 0, condition = None, hitCondition = Some ''%3'',
                     logMessage = None\<rparr> = Some ''%3''"
    "\<not> truthy (condition \<lparr>counter = 0, condition = None, hitCondition = Some ''%3'',
                     logMessage = None\<rparr>)"
    "logMessage \<lparr>counter = 0, condition = None, hitCondition = Some ''%3'',
                     logMessage = None\<rparr> = None"
    by (simp_all add: truthy_def)
  show ?thesis
    using
      hit_condition_modulo_and_default
        [OF h(1,2,3,4) c(1,2,3,4) e h(5) b(1) b(3), where sandbox = safeEval_js]
      hit_condition_modulo_and_default
        [OF h(1,2,3,4) c(1,2,3,4) e h(5) b(2) b(4), where sandbox = safeEval_js]
    by (simp add: counted_def)
qed

text \<open>The trace of the first six breaks: the stopped event comes with the third and
  with the sixth.\<close>

lemma third_and_sixth_break_halt:
  "trace (fst (evaluations plain_paths (break_after ''run'') (at_line 7) 6 every_third))
     = trace every_third
       @ [Command RunCommand, Response,
          Command StackGetCommand, Command RunCommand,
          Command StackGetCommand, Command RunCommand,
          Command StackGetCommand, Event (StoppedEvent ''conditional breakpoint''),
          Command RunCommand, Response,
          Command StackGetCommand, Command RunCommand,
          Command StackGetCommand, Command RunCommand,
          Command StackGetCommand, Event (StoppedEvent ''conditional breakpoint'')]"
  by code_simp

section \<open>Hit conditions that do not parse, and a failing sandbox\<close>

text \<open>
  The regular expression of the code accepts exactly the strings of \<open>code_pattern\<close>,
  in whatever order the alternatives are tried, and every string of the grammar
  \<open>(operator)?(number)\<close> is one of them. The converse fails: white space may stand
  between the operator and the number, and before a number without operator.
\<close>

lemma digit_is_no_space: "is_digit c \<Longrightarrow> \<not> is_space c"
  by (auto simp: is_digit_def is_space_def)

lemma numeral_has_no_leading_space: "is_numeral x \<Longrightarrow> dropWhile is_space x = x"
  by (cases x) (simp_all add: is_numeral_def digit_is_no_space)

lemma match_rest_none: "(match_rest x = None) = (\<not> is_numeral (dropWhile is_space x))"
  by (simp add: match_rest_def is_numeral_def Let_def)

lemma match_rest_some: "(\<exists>d. match_rest x = Some d) = is_numeral (dropWhile is_space x)"
  by (simp add: match_rest_def is_numeral_def Let_def)

lemma match_alternatives_none:
  "(match_alternatives ops h = None)
     = (\<not> list_ex (\<lambda>op. startsWith h op
                          \<and> is_numeral (dropWhile is_space (drop (length op) h))) ([] # ops))"
proof (induction ops)
  case Nil
  then show ?case
    by (simp add: match_rest_none match_rest_some startsWith_def split: option.splits)
next
  case (Cons op ops)
  then show ?case
    by (auto simp: match_rest_none match_rest_some startsWith_def split: option.splits)
qed

lemma pattern_is_the_matcher: "(match_hitCondition h = None) = (\<not> code_pattern h)"
  unfolding match_hitCondition_def code_pattern_def operators_def
  by (rule match_alternatives_none)

lemma grammar_within_pattern: "spec_grammar h \<Longrightarrow> code_pattern h"
  unfolding spec_grammar_def code_pattern_def list_ex_iff
  by (metis numeral_has_no_leading_space)

text \<open>
  C9. When the hit condition of a breakpoint is not of the form operator (one of
  \<open><=\<close>, \<open><\<close>, \<open>>=\<close>, \<open>>\<close>, \<open>==\<close>, \<open>=\<close>, \<open>%\<close>, or none), then any white space,
  then one or more digits, or when the sandbox throws on the code built from it, the
  hit condition's result is false and the evaluation throws nothing. When the hit
  condition is a non-empty string, the evaluation then finds no match and sends no
  event: it sends the run command and goes on with the debuggee's next answer.
\<close>

theorem malformed_hit_condition_is_no_match:
  assumes "advancedData bp = Some ad" and "hitCondition ad = Some h"
    and "\<not> code_pattern h
         \<or> (\<exists>operator number e. match_hitCondition h = Some (operator, number)
              \<and> safeEval ext (hitCondition_code (js_incr (counter ad)) operator number) = Inl e)"
  shows "\<not> hitConditionResult (safeEval ext) h (js_incr (counter ad))
    \<and> \<not> hitConditionResult_of ext (ad\<lparr>counter := js_incr (counter ad)\<rparr>)
    \<and> snd (checkAdvancedBreakpoint ext s key bp dbg []) \<in> {Completed, Awaiting}
    \<and> (h \<noteq> [] \<longrightarrow>
        checkAdvancedBreakpoint ext s key bp dbg script =
          (case script of
             [] \<Rightarrow>
               (sendCommand RunCommand
                  (count_hit key bp (ad\<lparr>counter := js_incr (counter ad)\<rparr>) s), Awaiting)
           | (response, dbg') # rest \<Rightarrow>
               checkContinuationStatus ext
                 (sendCommand RunCommand
                    (count_hit key bp (ad\<lparr>counter := js_incr (counter ad)\<rparr>) s))
                 response True dbg' rest))"
proof -
  have no: "\<not> hitConditionResult (safeEval ext) h (js_incr (counter ad))"
    using assms(3) by (auto simp: hitConditionResult_def pattern_is_the_matcher [symmetric])
  then have no_of: "\<not> hitConditionResult_of ext (ad\<lparr>counter := js_incr (counter ad)\<rparr>)"
    using assms(2) by (simp add: hitConditionResult_of_def)
  have ends: "snd (checkAdvancedBreakpoint ext s key bp dbg []) \<in> {Completed, Awaiting}"
    using assms(1) by (simp add: Let_def)
  have "checkAdvancedBreakpoint ext s key bp dbg script =
          (case script of
             [] \<Rightarrow>
               (sendCommand RunCommand
                  (count_hit key bp (ad\<lparr>counter := js_incr (counter ad)\<rparr>) s), Awaiting)
           | (response, dbg') # rest \<Rightarrow>
               checkContinuationStatus ext
                 (sendCommand RunCommand
                    (count_hit key bp (ad\<lparr>counter := js_incr (counter ad)\<rparr>) s))
                 response True dbg' rest)"
    if "h \<noteq> []"
  proof -
    have "\<not> matchCondition ext dbg (ad\<lparr>counter := js_incr (counter ad)\<rparr>)"
      using no_of assms(2) that
      by (simp add: matchCondition_def truthy_def conditionResult_def split: option.splits)
    then show ?thesis
      using assms(1)
      by (simp add: Let_def del: checkContinuationStatus.simps split: list.splits)
  qed
  then show ?thesis
    using no no_of ends by blast
qed

theorem malformed_hit_condition_is_no_match_witness:
  "\<not> code_pattern ''abc''
   \<and> checkAdvancedBreakpoint plain_paths (new_session (launch None True)) ''demo.ahk7''
         (counted 0 None (Some ''abc'') None) (at_line 7) [] =
       (sendCommand RunCommand
          (count_hit ''demo.ahk7'' (counted 0 None (Some ''abc'') None)
             \<lparr>counter = 1, condition = None, hitCondition = Some ''abc'', logMessage = None\<rparr>
             (new_session (launch None True))), Awaiting)
   \<and> match_hitCondition ''5'' = Some (None, ''5'')
   \<and> safeEval failing_sandbox (hitCondition_code 9 None ''5'') = Inl (EvalError ''9 >= 5'')
   \<and> checkAdvancedBreakpoint failing_sandbox (new_session (launch None True)) ''demo.ahk7''
         (counted 8 (Some ''true'') (Some ''5'') None) (at_line 7) [] =
       (sendCommand RunCommand
          (count_hit ''demo.ahk7'' (counted 8 (Some ''true'') (Some ''5'') None)
             \<lparr>counter = 9, condition = Some ''true'', hitCondition = Some ''5'',
                logMessage = None\<rparr>
             (new_session (launch None True))), Awaiting)"
proof -
  have a: "\<not> code_pattern ''abc''"
    by code_simp
  have c: "hitCondition_code 9 None ''5'' = ''9 >= 5''"
    by code_simp
  have f: "safeEval failing_sandbox (hitCondition_code 9 None ''5'') = Inl (EvalError ''9 >= 5'')"
    by (simp add: failing_sandbox_def c)
  have i: "js_incr 0 = 1" "js_incr 8 = 9"
    by (simp_all add: js_incr_def MAX_EXACT_def)
  show ?thesis
    using a f match_5
      malformed_hit_condition_is_no_match
        [where bp = "counted 0 None (Some ''abc'') None"
           and ad = "\<lparr>counter = 0, condition = None, hitCondition = Some ''abc'',
                       logMessage = None\<rparr>"
           and h = "''abc''" and ext = plain_paths and s = "new_session (launch None True)"
           and key = "''demo.ahk7''" and dbg = "at_line 7" and script = "[]"]
      malformed_hit_condition_is_no_match
        [where bp = "counted 8 (Some ''true'') (Some ''5'') None"
           and ad = "\<lparr>counter = 8, condition = Some ''true'', hitCondition = Some ''5'',
                       logMessage = None\<rparr>"
           and h = "''5''" and ext = failing_sandbox and s = "new_session (launch None True)"
           and key = "''demo.ahk7''" and dbg = "at_line 7" and script = "[]"]
    by (simp add: counted_def i)
qed

text \<open>
  A hit condition outside the grammar \<open>(operator)?(number)\<close> that is evaluated all the
  same: \<open>> 5\<close>, with a space, matches at the sixth evaluation and stops the debuggee.
\<close>

theorem spaced_hit_condition_counterexample:
  "\<not> spec_grammar ''> 5''
   \<and> code_pattern ''> 5''
   \<and> hitConditionResult safeEval_js ''> 5'' 6
   \<and> snd (checkAdvancedBreakpoint plain_paths (new_session (launch None True)) ''demo.ahk7''
            (counted 5 None (Some ''> 5'') None) (at_line 7) []) = Completed
   \<and> trace (fst (checkAdvancedBreakpoint plain_paths (new_session (launch None True))
            ''demo.ahk7'' (counted 5 None (Some ''> 5'') None) (at_line 7) []))
       = [Event (StoppedEvent ''conditional breakpoint'')]"
  by code_simp

section \<open>Configuration done with stop on entry\<close>

text \<open>
  C1 (as the code has it). With \<open>stopOnEntry\<close> set, configuration-done sends the
  step-into command and, on the status \<open>break\<close>, sends the stopped event at once:
  no stack command, no lookup in the registry and no evaluation of an advanced
  breakpoint come before it, whatever \<open>useAdvancedBreakpoint\<close> is. The check for an
  advanced breakpoint is made only when \<open>stopOnEntry\<close> is not set and
  \<open>useAdvancedBreakpoint\<close> is: then the command is run, and its answer is checked.
  Without \<open>useAdvancedBreakpoint\<close> the stopped event also follows the command at
  once on the status \<open>break\<close>, and whenever \<open>stopOnEntry\<close> is set or
  \<open>useAdvancedBreakpoint\<close> is not, the answer is handled with the check switched
  off, whatever its status.
\<close>

theorem configurationDone_stopOnEntry:
  "(stopOnEntry (config s) = Some True \<and> status response = ''break'' \<longrightarrow>
      configurationDoneRequest ext s ((response, dbg) # rest) =
        (sendEvent (StoppedEvent (stopReason response))
           (sendCommand StepIntoCommand
              (sendCommand (FeatureSetCommand ''max_children'' (maxChildren (config s))) s)),
         Completed))
   \<and> (stopOnEntry (config s') \<noteq> Some True \<and> useAdvancedBreakpoint (config s') \<longrightarrow>
      configurationDoneRequest ext s' ((response', dbg') # rest') =
        checkContinuationStatus ext
          (sendCommand RunCommand
             (sendCommand (FeatureSetCommand ''max_children'' (maxChildren (config s'))) s'))
          response' True dbg' rest')
   \<and> (\<not> useAdvancedBreakpoint (config u) \<and> status answer = ''break'' \<longrightarrow>
      configurationDoneRequest ext u ((answer, dbg_u) # rest_u) =
        (sendEvent (StoppedEvent (stopReason answer))
           (sendCommand (if stopOnEntry (config u) = Some True
                         then StepIntoCommand else RunCommand)
              (sendCommand (FeatureSetCommand ''max_children'' (maxChildren (config u))) u)),
         Completed))
   \<and> (stopOnEntry (config v) = Some True \<or> \<not> useAdvancedBreakpoint (config v) \<longrightarrow>
      configurationDoneRequest ext v ((answer', dbg_v) # rest_v) =
        checkContinuationStatus ext
          (sendCommand (if stopOnEntry (config v) = Some True
                        then StepIntoCommand else RunCommand)
             (sendCommand (FeatureSetCommand ''max_children'' (maxChildren (config v))) v))
          answer' False dbg_v rest_v)"
proof (intro conjI impI)
  assume "stopOnEntry (config s) = Some True \<and> status response = ''break''"
  then show "configurationDoneRequest ext s ((response, dbg) # rest) =
        (sendEvent (StoppedEvent (stopReason response))
           (sendCommand StepIntoCommand
              (sendCommand (FeatureSetCommand ''max_children'' (maxChildren (config s))) s)),
         Completed)"
    by (simp add: configurationDoneRequest_def truthy_flag_def Let_def)
next
  assume "stopOnEntry (config s') \<noteq> Some True \<and> useAdvancedBreakpoint (config s')"
  then show "configurationDoneRequest ext s' ((response', dbg') # rest') =
        checkContinuationStatus ext
          (sendCommand RunCommand
             (sendCommand (FeatureSetCommand ''max_children'' (maxChildren (config s'))) s'))
          response' True dbg' rest'"
    by (simp add: configurationDoneRequest_def truthy_flag_def Let_def
        del: checkContinuationStatus.simps)
next
  assume "\<not> useAdvancedBreakpoint (config u) \<and> status answer = ''break''"
  then show "configurationDoneRequest ext u ((answer, dbg_u) # rest_u) =
        (sendEvent (StoppedEvent (stopReason answer))
           (sendCommand (if stopOnEntry (config u) = Some True
                         then StepIntoCommand else RunCommand)
              (sendCommand (FeatureSetCommand ''max_children'' (maxChildren (config u))) u)),
         Completed)"
    by (simp add: configurationDoneRequest_def truthy_flag_def Let_def)
next
  assume "stopOnEntry (config v) = Some True \<or> \<not> useAdvancedBreakpoint (config v)"
  then show "configurationDoneRequest ext v ((answer', dbg_v) # rest_v) =
        checkContinuationStatus ext
          (sendCommand (if stopOnEntry (config v) = Some True
                        then StepIntoCommand else RunCommand)
             (sendCommand (FeatureSetCommand ''max_children'' (maxChildren (config v))) v))
          answer' False dbg_v rest_v"
    by (auto simp: configurationDoneRequest_def truthy_flag_def Let_def
        simp del: checkContinuationStatus.simps)
qed

theorem configurationDone_stopOnEntry_witness:
  "stopOnEntry (config entry_session) = Some True
   \<and> status (break_after ''step_into'') = ''break''
   \<and> configurationDoneRequest plain_paths entry_session [(break_after ''step_into'', at_line 7)] =
       (sendEvent (StoppedEvent ''step'')
          (sendCommand StepIntoCommand
             (sendCommand (FeatureSetCommand ''max_children'' 10) entry_session)),
        Completed)
   \<and> stopOnEntry (config plain_session) \<noteq> Some True
   \<and> useAdvancedBreakpoint (config plain_session)
   \<and> configurationDoneRequest plain_paths plain_session [(break_after ''run'', at_line 7)] =
       checkContinuationStatus plain_paths
         (sendCommand RunCommand
            (sendCommand (FeatureSetCommand ''max_children'' 10) plain_session))
         (break_after ''run'') True (at_line 7) []
   \<and> \<not> useAdvancedBreakpoint (config unchecked_session)
   \<and> status (break_after ''run'') = ''break''
   \<and> configurationDoneRequest plain_paths unchecked_session [(break_after ''run'', at_line 7)] =
       (sendEvent (StoppedEvent ''breakpoint'')
          (sendCommand RunCommand
             (sendCommand (FeatureSetCommand ''max_children'' 10) unchecked_session)),
        Completed)
   \<and> configurationDoneRequest plain_paths unchecked_session
         [(break_after ''run'', at_line 7)] =
       checkContinuationStatus plain_paths
         (sendCommand RunCommand
            (sendCommand (FeatureSetCommand ''max_children'' 10) unchecked_session))
         (break_after ''run'') False (at_line 7) []"
proof -
  have h: "stopOnEntry (config entry_session) = Some True"
    "status (break_after ''step_into'') = ''break''"
    "stopOnEntry (config plain_session) \<noteq> Some True"
    "useAdvancedBreakpoint (config plain_session)"
    "\<not> useAdvancedBreakpoint (config unchecked_session)"
    "status (break_after ''run'') = ''break''"
    "stopOnEntry (config unchecked_session) \<noteq> Some True"
    by code_simp+
  have v: "stopReason (break_after ''step_into'') = ''step''"
    "stopReason (break_after ''run'') = ''breakpoint''"
    "maxChildren (config entry_session) = 10" "maxChildren (config plain_session) = 10"
    "maxChildren (config unchecked_session) = 10"
    by code_simp+
  have w: "configurationDoneRequest plain_paths unchecked_session
             [(break_after ''run'', at_line 7)] =
           checkContinuationStatus plain_paths
             (sendCommand RunCommand
                (sendCommand (FeatureSetCommand ''max_children'' 10) unchecked_session))
             (break_after ''run'') False (at_line 7) []"
    using h v
      configurationDone_stopOnEntry
        [where v = unchecked_session and answer' = "break_after ''run''"
           and ext = plain_paths and dbg_v = "at_line 7" and rest_v = "[]"]
    by (simp del: checkContinuationStatus.simps)
  have x: "configurationDoneRequest plain_paths entry_session
              [(break_after ''step_into'', at_line 7)] =
            (sendEvent (StoppedEvent ''step'')
               (sendCommand StepIntoCommand
                  (sendCommand (FeatureSetCommand ''max_children'' 10) entry_session)),
             Completed)
    \<and> configurationDoneRequest plain_paths plain_session [(break_after ''run'', at_line 7)] =
       checkContinuationStatus plain_paths
         (sendCommand RunCommand
            (sendCommand (FeatureSetCommand ''max_children'' 10) plain_session))
         (break_after ''run'') True (at_line 7) []
    \<and> configurationDoneRequest plain_paths unchecked_session
          [(break_after ''run'', at_line 7)] =
       (sendEvent (StoppedEvent ''breakpoint'')
          (sendCommand RunCommand
             (sendCommand (FeatureSetCommand ''max_children'' 10) unchecked_session)),
        Completed)"
    using h v
      configurationDone_stopOnEntry
        [where s = entry_session and response = "break_after ''step_into''"
           and ext = plain_paths and dbg = "at_line 7" and rest = "[]"
           and s' = plain_session and response' = "break_after ''run''"
           and dbg' = "at_line 7" and rest' = "[]"
           and u = unchecked_session and answer = "break_after ''run''"
           and dbg_u = "at_line 7" and rest_u = "[]"]
    by (simp del: checkContinuationStatus.simps)
  show ?thesis
    using h(1-6) w x by blast
qed

text \<open>
  The claim C1 as it is written fails: the session below has stop on entry and
  advanced breakpoints switched on, and at line 7, where the step lands, the registry
  holds a breakpoint whose condition is false. The stopped event follows the step-into
  command directly, and the breakpoint's counter is still 0.
\<close>

theorem configurationDone_stopOnEntry_counterexample:
  "getCurrentBreakpoint plain_paths (at_line 7) entry_session
     = Inr (Some (''demo.ahk7'', counted 0 (Some ''false'') None None))
   \<and> trace (fst (configurationDoneRequest plain_paths entry_session
                   [(break_after ''step_into'', at_line 7)]))
     = trace entry_session
       @ [Command (FeatureSetCommand ''max_children'' 10), Command StepIntoCommand,
          Event (StoppedEvent ''step'')]
   \<and> breakpoints (fst (configurationDoneRequest plain_paths entry_session
                         [(break_after ''step_into'', at_line 7)])) ''demo.ahk7''
     = Some (counted 0 (Some ''false'') None None)"
  by code_simp

section \<open>Breakpoints without condition, hit condition and log message\<close>




text \<open>
  A breakpoint set with the empty string as its log message does not halt: it writes
  an empty line and resumes the debuggee.
\<close>

lemma empty_log_message_resumes:
  "breakpoints (session_with (launch None True) (at_7 None None (Some ''''))) ''demo.ahk7''
     = Some (counted 0 None None (Some ''''))
   \<and> trace (fst (continueRequest plain_paths
                   (session_with (launch None True) (at_7 None None (Some '''')))
                   [(break_after ''run'', at_line 7)]))
     = trace (session_with (launch None True) (at_7 None None (Some '''')))
       @ [Command RunCommand, Response, Command StackGetCommand,
          Event (OutputEvent [newline] (Some ''log'')), Command RunCommand]"
  by code_simp

section \<open>Log points\<close>

text \<open>
  C8. An evaluation of a breakpoint that has a log message never halts: it sends the
  rendered message as a log output when the combined condition matches, and nothing
  when it does not; then it always sends the run command, and only the debuggee's
  answer to that command is looked at next. No stopped event is sent in between.
\<close>

theorem log_point_never_halts:
  assumes "advancedData bp = Some ad" and "logMessage ad = Some m"
  shows "\<exists>s3. trace s3 = trace s
              @ (if matchCondition ext dbg (ad\<lparr>counter := js_incr (counter ad)\<rparr>)
                 then [Event (OutputEvent (evalLogMessage (fetchPrimitiveProperty dbg) m) (Some ''log''))]
                 else [])
              @ [Command RunCommand]
          \<and> checkAdvancedBreakpoint ext s key bp dbg script =
              (case script of
                 [] \<Rightarrow> (s3, Awaiting)
               | (response, dbg') # rest \<Rightarrow> checkContinuationStatus ext s3 response True dbg' rest)"
proof -
  define ad' where "ad' = ad\<lparr>counter := js_incr (counter ad)\<rparr>"
  define s1 where "s1 = count_hit key bp ad' s"
  define s2 where "s2 = (if matchCondition ext dbg ad'
      then sendEvent (OutputEvent (evalLogMessage (fetchPrimitiveProperty dbg) m) (Some ''log'')) s1
      else s1)"
  define s3 where "s3 = sendCommand RunCommand s2"
  have m: "logMessage ad' = Some m"
    using assms(2) by (simp add: ad'_def)
  have t: "trace s3 = trace s
              @ (if matchCondition ext dbg ad'
                 then [Event (OutputEvent (evalLogMessage (fetchPrimitiveProperty dbg) m) (Some ''log''))]
                 else [])
              @ [Command RunCommand]"
    by (simp add: s3_def s2_def s1_def sendCommand_def sendEvent_def count_hit_def)
  have r: "checkAdvancedBreakpoint ext s key bp dbg script =
              (case script of
                 [] \<Rightarrow> (s3, Awaiting)
               | (response, dbg') # rest \<Rightarrow> checkContinuationStatus ext s3 response True dbg' rest)"
    using assms(1) m
    by (simp add: Let_def ad'_def [symmetric] s1_def [symmetric] s2_def s3_def
        del: checkContinuationStatus.simps split: list.splits)
  show ?thesis
    using t r unfolding ad'_def by blast
qed

theorem log_point_never_halts_witness:
  "advancedData (counted 0 None None (Some ''x={x}''))
     = Some \<lparr>counter = 0, condition = None, hitCondition = None, logMessage = Some ''x={x}''\<rparr>
   \<and> (\<exists>s3. trace s3 = [Event (OutputEvent (''x=42'' @ [newline]) (Some ''log'')),
                        Command RunCommand]
         \<and> checkAdvancedBreakpoint plain_paths (new_session (launch None True)) ''demo.ahk7''
              (counted 0 None None (Some ''x={x}'')) (at_line 7) [] = (s3, Awaiting))"
proof -
  have h: "advancedData (counted 0 None None (Some ''x={x}''))
     = Some \<lparr>counter = 0, condition = None, hitCondition = None, logMessage = Some ''x={x}''\<rparr>"
    by code_simp
  have v: "matchCondition plain_paths (at_line 7)
             \<lparr>counter = js_incr 0, condition = None, hitCondition = None,
                logMessage = Some ''x={x}''\<rparr>"
    "evalLogMessage (fetchPrimitiveProperty (at_line 7)) ''x={x}'' = ''x=42'' @ [newline]"
    "trace (new_session (launch None True)) = []"
    by code_simp+
  show ?thesis
    using h v
      log_point_never_halts
        [where bp = "counted 0 None None (Some ''x={x}'')"
           and ad = "\<lparr>counter = 0, condition = None, hitCondition = None,
                       logMessage = Some ''x={x}''\<rparr>"
           and m = "''x={x}''" and ext = plain_paths and dbg = "at_line 7"
           and s = "new_session (launch None True)" and key = "''demo.ahk7''"
           and script = "[]"]
    by (simp del: checkAdvancedBreakpoint.simps)
qed

section \<open>Rendering log messages\<close>

lemma find_close_expression:
  assumes "\<forall>c \<in> set e. c \<noteq> CHR ''}'' \<and> \<not> is_line_terminator c"
    and "acc @ e \<noteq> []" and "last (acc @ e) \<noteq> backslash"
  shows "find_close acc (e @ CHR ''}'' # rest) = Some (acc @ e, rest)"
  using assms
proof (induction e arbitrary: acc)
  case Nil
  then show ?case by simp
next
  case (Cons c e)
  have "find_close (acc @ [c]) (e @ CHR ''}'' # rest) = Some ((acc @ [c]) @ e, rest)"
    using Cons.prems by (intro Cons.IH) simp_all
  then show ?case
    using Cons.prems by simp
qed

lemma unopened_append:
  "unopened b (s @ t) = (unopened b s \<and> unopened (if s = [] then b else last s = backslash) t)"
  by (induction s arbitrary: b) auto

lemma find_match_skip:
  "unopened (pre \<noteq> [] \<and> last pre = backslash) lit \<Longrightarrow>
     find_match pre (lit @ rest) = find_match (pre @ lit) rest"
proof (induction lit arbitrary: pre)
  case Nil
  then show ?case by simp
next
  case (Cons c lit)
  have "find_match (pre @ [c]) (lit @ rest) = find_match ((pre @ [c]) @ lit) rest"
    using Cons.prems by (intro Cons.IH) simp
  then show ?case
    using Cons.prems by auto
qed

lemma find_match_none:
  "unopened (pre \<noteq> [] \<and> last pre = backslash) s \<Longrightarrow> find_match pre s = None"
  using find_match_skip [of pre s "[]"] by simp

lemma find_match_segment:
  assumes "unopened (pre \<noteq> [] \<and> last pre = backslash) lit" and "ends_plain (pre @ lit)"
    and "expression_text e"
  shows "find_match pre (lit @ ''{'' @ e @ ''}'' @ rest) = Some (pre @ lit, e, rest)"
proof -
  have "find_close [] (e @ CHR ''}'' # rest) = Some ([] @ e, rest)"
    using assms(3) by (intro find_close_expression) (simp_all add: expression_text_def)
  then have "find_match (pre @ lit) (CHR ''{'' # e @ CHR ''}'' # rest) = Some (pre @ lit, e, rest)"
    using assms(2) by (simp add: ends_plain_def)
  then show ?thesis
    using find_match_skip [OF assms(1), of "''{'' @ e @ ''}'' @ rest"] by simp
qed

lemma ends_plain_append: "ends_plain s \<Longrightarrow> ends_plain t \<Longrightarrow> ends_plain (s @ t)"
  by (cases "t = []") (auto simp: ends_plain_def)

lemma literal_text_append: "literal_text s \<Longrightarrow> literal_text t \<Longrightarrow> literal_text (s @ t)"
  by (auto simp: literal_text_def unopened_append ends_plain_append) (auto simp: ends_plain_def)

lemma unopened_after_plain:
  "ends_plain pre \<Longrightarrow> unopened (pre \<noteq> [] \<and> last pre = backslash) s = unopened False s"
  by (auto simp: ends_plain_def)

lemma matchAll_template:
  assumes "\<forall>(lit, e) \<in> set segs. literal_text lit \<and> expression_text e"
    and "unopened False tail" and "ends_plain pre"
  shows "matchAll pre (template segs tail) = map snd segs"
  using assms
proof (induction segs arbitrary: pre)
  case Nil
  then show ?case
    by (simp add: matchAll.simps [of pre tail] find_match_none unopened_after_plain)
next
  case (Cons seg segs)
  obtain lit e where seg: "seg = (lit, e)" by (cases seg)
  have lit: "literal_text lit" and e: "expression_text e"
    using Cons.prems(1) seg by auto
  have found: "find_match pre (lit @ ''{'' @ e @ ''}'' @ template segs tail)
                = Some (pre @ lit, e, template segs tail)"
    using lit e Cons.prems(3)
    by (intro find_match_segment)
       (simp_all add: literal_text_def unopened_after_plain ends_plain_append)
  have "ends_plain ((pre @ lit) @ ''{'' @ e @ ''}'')"
    by (simp add: ends_plain_def backslash_def)
  then have rest: "matchAll ((pre @ lit) @ ''{'' @ e @ ''}'') (template segs tail) = map snd segs"
    using Cons.prems(1,2) by (intro Cons.IH) simp_all
  have "matchAll pre (template (seg # segs) tail)
          = e # matchAll ((pre @ lit) @ ''{'' @ e @ ''}'') (template segs tail)"
    by (subst matchAll.simps) (use found seg in simp)
  then show ?case
    using rest seg by simp
qed

lemma getSubstitution_plain:
  "CHR ''$'' \<notin> set r \<Longrightarrow> getSubstitution m b a e r = r"
proof (induction m b a e r rule: getSubstitution.induct)
  case (1 matched left right capture)
  then show ?case by simp
next
  case (2 matched left right capture c)
  then show ?case by simp
next
  case (3 matched left right capture c d r)
  have c: "c \<noteq> CHR ''$''" and dr: "CHR ''$'' \<notin> set (d # r)"
    using "3.prems" by auto
  have "getSubstitution matched left right capture (d # r) = d # r"
    using c dr by (rule "3.IH"(1))
  then show ?case
    using c by simp
qed

lemma fold_template:
  assumes "\<forall>(lit, e) \<in> set segs. literal_text lit \<and> expression_text e \<and> value_text (f e)"
    and "literal_text fin"
  shows "foldl (substitute f) (fin @ template segs tail) (map snd segs)
           = fin @ rendering f segs tail"
  using assms
proof (induction segs arbitrary: fin)
  case Nil
  then show ?case by simp
next
  case (Cons seg segs)
  obtain lit e where seg: "seg = (lit, e)" by (cases seg)
  have lit: "literal_text lit" and e: "expression_text e" and "value_text (f e)"
    using Cons.prems(1) seg by auto
  then obtain v where v: "f e = Some v" "v \<noteq> []" "literal_text v" "CHR ''$'' \<notin> set v"
    by (auto simp: value_text_def split: option.splits)
  have fl: "literal_text (fin @ lit)"
    using Cons.prems(2) lit by (rule literal_text_append)
  have "find_match [] ((fin @ lit) @ ''{'' @ e @ ''}'' @ template segs tail)
          = Some ([] @ (fin @ lit), e, template segs tail)"
    using fl e by (intro find_match_segment) (simp_all add: literal_text_def)
  then have step: "substitute f (fin @ template (seg # segs) tail) e
          = ((fin @ lit) @ v) @ template segs tail"
    using v seg by (simp add: substitute_def replace_first_def getSubstitution_plain)
  have "literal_text ((fin @ lit) @ v)"
    using fl v(3) by (rule literal_text_append)
  then have "foldl (substitute f) (((fin @ lit) @ v) @ template segs tail) (map snd segs)
          = ((fin @ lit) @ v) @ rendering f segs tail"
    using Cons.prems(1) by (intro Cons.IH) simp_all
  then show ?case
    using step seg v(1) by simp
qed

text \<open>
  C5 (as the code has it). Take a log message written as
  \<open>lit\<^sub>1{e\<^sub>1}lit\<^sub>2{e\<^sub>2}...lit\<^sub>n{e\<^sub>n}tail\<close>, where

  \<^item> in every literal text \<open>lit\<^sub>i\<close> and in \<open>tail\<close>, every opening brace stands directly
    behind a backslash;
  \<^item> no literal text \<open>lit\<^sub>i\<close> ends with a backslash (\<open>tail\<close> may);
  \<^item> every expression \<open>e\<^sub>i\<close> is non-empty, has no closing brace and no line
    terminator, and does not end with a backslash;
  \<^item> every expression \<open>e\<^sub>i\<close> is fetched, to a value \<open>v\<^sub>i\<close> that is non-empty, has no
    \<open>$\<close>, has every opening brace directly behind a backslash, and does not end with
    a backslash.

  Its rendering is \<open>lit\<^sub>1v\<^sub>1lit\<^sub>2v\<^sub>2...lit\<^sub>nv\<^sub>ntail\<close> and one newline: every expression
  in braces is replaced by the value fetched for it, braces behind a backslash stay
  as they are, with the backslash, and one newline is added at the end. So the
  message \<open>x={x}\<close> followed by a newline renders, with \<open>x\<close> fetched as \<open>42\<close>, to
  \<open>x=42\<close> followed by two newlines. Nothing is said here of the other messages:
  empty braces, an expression that is not fetched or is fetched to the empty string,
  a value with a \<open>$\<close>, with an opening brace of its own or with a backslash at its
  end.
\<close>

theorem evalLogMessage_renders:
  assumes "\<forall>(lit, e) \<in> set segs. literal_text lit \<and> expression_text e \<and> value_text (f e)"
    and "unopened False tail"
  shows "evalLogMessage f (template segs tail) = rendering f segs tail @ [newline]"
proof -
  have a: "\<forall>(lit, e) \<in> set segs. literal_text lit \<and> expression_text e"
    using assms(1) by fastforce
  have e: "ends_plain []"
    by (simp add: ends_plain_def)
  have m: "matchAll [] (template segs tail) = map snd segs"
    by (rule matchAll_template [OF a assms(2) e])
  have l: "literal_text []"
    by (simp add: literal_text_def ends_plain_def)
  have "foldl (substitute f) ([] @ template segs tail) (map snd segs)
                   = [] @ rendering f segs tail"
    by (rule fold_template [OF assms(1) l])
  then show ?thesis
    by (simp add: evalLogMessage_def m)
qed


theorem evalLogMessage_renders_witness:
  "evalLogMessage x_is_42 (''x={x}'' @ [newline]) = ''x=42'' @ [newline, newline]
   \<and> evalLogMessage x_is_42 ([backslash] @ ''{literal'' @ [backslash] @ ''}'')
       = [backslash] @ ''{literal'' @ [backslash] @ ''}'' @ [newline]"
proof -
  have h: "\<forall>(lit, e) \<in> set [(''x='', ''x'')].
       literal_text lit \<and> expression_text e \<and> value_text (x_is_42 e)"
    "unopened False [newline]"
    "unopened False ([backslash] @ ''{literal'' @ [backslash] @ ''}'')"
    by code_simp+
  show ?thesis
    using h
      evalLogMessage_renders [of "[(''x='', ''x'')]" x_is_42 "[newline]"]
      evalLogMessage_renders [of "[]" x_is_42 "[backslash] @ ''{literal'' @ [backslash] @ ''}''"]
    by (simp add: x_is_42_def)
qed

text \<open>
  The claim C5 as it is written fails in its example: the rendering of a message that
  ends with a newline ends with two newlines, and a message that ends with a
  backslash and the letter n is rendered with these two characters and a newline.
\<close>

theorem evalLogMessage_counterexample:
  "evalLogMessage x_is_42 (''x={x}'' @ [newline]) = ''x=42'' @ [newline, newline]
   \<and> evalLogMessage x_is_42 (''x={x}'' @ [newline]) \<noteq> ''x=42'' @ [newline]
   \<and> evalLogMessage x_is_42 (''x={x}'' @ [backslash, CHR ''n''])
       = ''x=42'' @ [backslash, CHR ''n'', newline]"
  by code_simp

text \<open>Why the values must be non-empty: an expression that is fetched to nothing stays
  in the text, and the value of the next expression is written in its place.\<close>

lemma unresolved_expression_takes_next_value:
  "evalLogMessage x_is_42 ''{a} and {x}'' = ''42 and {x}'' @ [newline]"
  by code_simp

section \<open>Re-applying the breakpoints of a file\<close>

text \<open>
  C2. The session \<open>hit_twice\<close> holds the breakpoint of line 7 with counter 2. The
  breakpoints of the file are applied again, unchanged; the debuggee lists the
  breakpoint that the adapter had set. The handler deletes the record of every listed
  breakpoint of the file first, finds none at the location afterwards and stores a new
  record: the counter is 0, not 2.
\<close>

theorem reapply_resets_counter:
  "map_option advancedData (breakpoints hit_twice ''demo.ahk7'')
     = Some (Some \<lparr>counter = 2, condition = Some ''false'', hitCondition = None, logMessage = None\<rparr>)
   \<and> map_option advancedData
        (breakpoints
           (fst (setBreakPointsRequest plain_paths
                   (breakpoint_debuggee [\<lparr>db_id = 107, db_fileUri = ''demo.ahk'', db_line = 7\<rparr>])
                   (demo_breakpoints [at_7 (Some ''false'') None None]) hit_twice))
           ''demo.ahk7'')
     = Some (Some \<lparr>counter = 0, condition = Some ''false'', hitCondition = None, logMessage = None\<rparr>)"
  by code_simp

text \<open>
  The branch that keeps the counter is reached only when the debuggee did not list the
  breakpoint and the path has no capital letter: the lookup takes the path as given
  (here \<open>Demo.ahk\<close> in the second request), the registry is keyed by the lower-cased
  path.
\<close>

lemma merge_keeps_counter_when_reached:
  "map_option advancedData
     (breakpoints
        (fst (setBreakPointsRequest plain_paths (breakpoint_debuggee [])
                (demo_breakpoints [at_7 (Some ''true'') None None]) hit_twice))
        ''demo.ahk7'')
     = Some (Some \<lparr>counter = 2, condition = Some ''true'', hitCondition = None, logMessage = None\<rparr>)
   \<and> map_option advancedData
     (breakpoints
        (fst (setBreakPointsRequest plain_paths (breakpoint_debuggee [])
                \<lparr>source_path = Some ''Demo.ahk'',
                   arg_breakpoints = Some [at_7 (Some ''true'') None None]\<rparr> hit_twice))
        ''demo.ahk7'')
     = Some (Some \<lparr>counter = 0, condition = Some ''true'', hitCondition = None, logMessage = None\<rparr>)"
  by code_simp

section \<open>Handles across stops\<close>


























end
